theory Spec2Isabelle
  imports Complex_Main "HOL-Library.Word"
begin

unbundle bit_operations_syntax

section \<open>Audio decoding\<close>

text \<open>
  The three files that play audio (StudyInterface.tsx, Flashcard, ConceptExplainer) carry
  the same text of \<^verbatim>\<open>decode\<close>, \<^verbatim>\<open>decodeAudioData\<close>, \<^verbatim>\<open>playAudio\<close> and
  \<^verbatim>\<open>stopAudio\<close>. A JavaScript string is modelled as a \<^typ>\<open>string\<close>, one \<^typ>\<open>char\<close>
  per code unit below 256; the binary string that \<^verbatim>\<open>atob\<close> returns holds exactly
  such code units.

  Exceptions are values. The three that the decoding path can raise are the
  \<^verbatim>\<open>InvalidCharacterError\<close> of \<^verbatim>\<open>atob\<close>, the \<^verbatim>\<open>RangeError\<close> of the
  \<^verbatim>\<open>Int16Array\<close> constructor and the \<^verbatim>\<open>NotSupportedError\<close> of
  \<^verbatim>\<open>createBuffer\<close>.
\<close>

datatype decode_error = InvalidCharacterError | RangeError | NotSupportedError

subsection \<open>The platform's atob\<close>

text \<open>
  \<^verbatim>\<open>atob\<close> is the browser's forgiving-base64 decode: ASCII whitespace is removed; when
  the length is then a multiple of four, one or two trailing \<^verbatim>\<open>=\<close> are removed; a
  length of 1 modulo 4 or any code unit outside the base64 alphabet is a failure; the
  remaining code units are read six bits at a time, a trailing group of two or three
  giving one or two bytes.
\<close>

definition isAsciiWhitespace :: "char \<Rightarrow> bool" where
  "isAsciiWhitespace c \<longleftrightarrow> (of_char c :: nat) \<in> {9, 10, 12, 13, 32}"

definition base64Index :: "char \<Rightarrow> nat option" where
  "base64Index c =
     (let n = (of_char c :: nat)
      in if 65 \<le> n \<and> n \<le> 90 then Some (n - 65)
         else if 97 \<le> n \<and> n \<le> 122 then Some (n - 71)
         else if 48 \<le> n \<and> n \<le> 57 then Some (n + 4)
         else if n = 43 then Some 62
         else if n = 47 then Some 63
         else None)"

definition stripPadding :: "string \<Rightarrow> string" where
  "stripPadding s =
     (if 2 \<le> length s \<and> last s = CHR ''='' \<and> last (butlast s) = CHR ''=''
      then butlast (butlast s)
      else if 1 \<le> length s \<and> last s = CHR ''='' then butlast s
      else s)"

fun decodeSextets :: "nat list \<Rightarrow> string" where
  "decodeSextets (a # b # c # d # rest) =
     (let n = ((a * 64 + b) * 64 + c) * 64 + d
      in char_of (n div 65536) # char_of (n div 256 mod 256) # char_of (n mod 256)
           # decodeSextets rest)"
| "decodeSextets [a, b, c] =
     (let n = ((a * 64 + b) * 64 + c) div 4
      in [char_of (n div 256), char_of (n mod 256)])"
| "decodeSextets [a, b] = [char_of ((a * 64 + b) div 16)]"
| "decodeSextets [a] = []"
| "decodeSextets [] = []"

definition atob :: "string \<Rightarrow> string option" where
  "atob input =
     (let data = filter (\<lambda>c. \<not> isAsciiWhitespace c) input;
          data = (if length data mod 4 = 0 then stripPadding data else data)
      in if length data mod 4 = 1 then None
         else map_option decodeSextets (those (map base64Index data)))"

subsection \<open>decode and decodeAudioData\<close>

text \<open>
  \<^verbatim>\<open>decode\<close> copies the code units of the binary string into a \<^verbatim>\<open>Uint8Array\<close>;
  the exception of \<^verbatim>\<open>atob\<close> passes through it.
\<close>

definition decode :: "string \<Rightarrow> decode_error + 8 word list" where
  "decode base64 =
     (case atob base64 of
        None \<Rightarrow> Inl InvalidCharacterError
      | Some binaryString \<Rightarrow> Inr (map of_char binaryString))"

text \<open>
  \<^verbatim>\<open>new Int16Array(data.buffer)\<close> views the bytes as 16-bit integers in the byte order
  of the platform, little-endian on every platform a browser runs on, and throws a
  \<^verbatim>\<open>RangeError\<close> when the byte length is not a multiple of two.
\<close>

fun int16Pairs :: "8 word list \<Rightarrow> 16 word list" where
  "int16Pairs (lo # hi # rest) = (word_cat hi lo :: 16 word) # int16Pairs rest"
| "int16Pairs [b] = []"
| "int16Pairs [] = []"

definition int16Array :: "8 word list \<Rightarrow> decode_error + 16 word list" where
  "int16Array data = (if odd (length data) then Inl RangeError else Inr (int16Pairs data))"

text \<open>
  \<^verbatim>\<open>ctx.createBuffer(numberOfChannels, length, sampleRate)\<close> throws a
  \<^verbatim>\<open>NotSupportedError\<close> when an argument is zero. The buffer is a record of its
  sample rate, its length in frames and one list of samples per channel. A sample is
  a \<^verbatim>\<open>Float32Array\<close> element; the quotient of a 16-bit integer by 32768 is exact in
  that format, so the samples are modelled as the exact quotients.
\<close>

record audio_buffer =
  sampleRate :: nat
  frames :: nat
  channelData :: "real list list"

definition createBuffer :: "nat \<Rightarrow> nat \<Rightarrow> nat \<Rightarrow> decode_error + audio_buffer" where
  "createBuffer numChannels frameCount rate =
     (if numChannels = 0 \<or> frameCount = 0 \<or> rate = 0 then Inl NotSupportedError
      else Inr \<lparr>sampleRate = rate, frames = frameCount,
                channelData = replicate numChannels (replicate frameCount 0)\<rparr>)"

text \<open>
  The loops of \<^verbatim>\<open>decodeAudioData\<close> write
  \<^verbatim>\<open>dataInt16[i * numChannels + channel] / 32768.0\<close> at index \<open>i\<close> of each channel.
  \<^verbatim>\<open>frameCount\<close> is a quotient of numbers; \<^verbatim>\<open>createBuffer\<close> truncates it to an
  integer and a write past the end of a typed array is dropped, so the frames written
  are those below the truncated quotient.
\<close>

definition normalize :: "16 word \<Rightarrow> real" where
  "normalize w = real_of_int (sint w) / 32768"

definition decodeAudioData :: "8 word list \<Rightarrow> nat \<Rightarrow> nat \<Rightarrow> decode_error + audio_buffer" where
  "decodeAudioData data rate numChannels =
     (case int16Array data of
        Inl e \<Rightarrow> Inl e
      | Inr dataInt16 \<Rightarrow>
          (let frameCount = length dataInt16 div numChannels
           in case createBuffer numChannels frameCount rate of
                Inl e \<Rightarrow> Inl e
              | Inr buffer \<Rightarrow>
                  Inr (buffer\<lparr>channelData :=
                         map (\<lambda>channel.
                                map (\<lambda>i. normalize (dataInt16 ! (i * numChannels + channel)))
                                    [0..<frameCount])
                             [0..<numChannels]\<rparr>)))"

text \<open>
  The first lines of \<^verbatim>\<open>playAudio\<close> after the stop of the previous source:
  \<^verbatim>\<open>decode(base64Audio)\<close>, then \<^verbatim>\<open>decodeAudioData(decodedBytes, ctx, 24000, 1)\<close>.
\<close>

definition decodePayload :: "string \<Rightarrow> decode_error + audio_buffer" where
  "decodePayload base64Audio =
     (case decode base64Audio of
        Inl e \<Rightarrow> Inl e
      | Inr decodedBytes \<Rightarrow> decodeAudioData decodedBytes 24000 1)"

subsection \<open>The encoding the payload is specified to have\<close>

text \<open>
  The synthesis service is specified to deliver mono 16-bit little-endian PCM in base64
  (RFC 4648, with padding). This encoder is that specification, written out so that the
  round trip through the decoder of the source can be stated.
\<close>

definition base64Char :: "nat \<Rightarrow> char" where
  "base64Char i =
     (if i < 26 then char_of (65 + i)
      else if i < 52 then char_of (71 + i)
      else if i < 62 then char_of (i - 4)
      else if i = 62 then CHR ''+''
      else CHR ''/'')"

fun btoa :: "string \<Rightarrow> string" where
  "btoa (a # b # c # rest) =
     (let n = (of_char a * 256 + of_char b) * 256 + (of_char c :: nat)
      in base64Char (n div 262144) # base64Char (n div 4096 mod 64)
           # base64Char (n div 64 mod 64) # base64Char (n mod 64) # btoa rest)"
| "btoa [a, b] =
     (let n = (of_char a * 256 + (of_char b :: nat)) * 4
      in [base64Char (n div 4096), base64Char (n div 64 mod 64), base64Char (n mod 64),
          CHR ''=''])"
| "btoa [a] =
     (let n = (of_char a :: nat) * 16
      in [base64Char (n div 64), base64Char (n mod 64), CHR ''='', CHR ''=''])"
| "btoa [] = []"

definition littleEndianBytes :: "16 word list \<Rightarrow> 8 word list" where
  "littleEndianBytes samples =
     concat (map (\<lambda>w. [ucast w, ucast (drop_bit 8 w)]) samples)"

definition encodeSamples :: "16 word list \<Rightarrow> string" where
  "encodeSamples samples = btoa (map (\<lambda>b. char_of (unat b)) (littleEndianBytes samples))"

text \<open>
  Two auxiliary functions for the proofs about \<open>btoa\<close>: the six-bit values it emits
  and the padding it ends with.
\<close>

fun sextets :: "string \<Rightarrow> nat list" where
  "sextets (a # b # c # rest) =
     (let n = (of_char a * 256 + of_char b) * 256 + (of_char c :: nat)
      in n div 262144 # n div 4096 mod 64 # n div 64 mod 64 # n mod 64 # sextets rest)"
| "sextets [a, b] =
     (let n = (of_char a * 256 + (of_char b :: nat)) * 4
      in [n div 4096, n div 64 mod 64, n mod 64])"
| "sextets [a] = (let n = (of_char a :: nat) * 16 in [n div 64, n mod 64])"
| "sextets [] = []"

fun padding :: "string \<Rightarrow> string" where
  "padding (a # b # c # rest) = padding rest"
| "padding [a, b] = ''=''"
| "padding [a] = ''==''"
| "padding [] = []"

section \<open>The chat panel\<close>

text \<open>
  \<^verbatim>\<open>ChatMessage\<close> of types.ts and the state of the \<^verbatim>\<open>Chat\<close> component. The
  session is an opaque handle of the chat service, or \<^verbatim>\<open>null\<close> before the first
  effect has run.
\<close>

datatype role = User | Model

record chat_message =
  role :: role
  content :: string

record chat =
  session :: "nat option"
  messages :: "chat_message list"
  userInput :: string
  isLoading :: bool

text \<open>
  \<^verbatim>\<open>String.prototype.trim\<close> removes white space and line terminators from both
  ends; below 256 these are the code units 9 to 13, 32 and 160.
\<close>

definition isWhiteSpace :: "char \<Rightarrow> bool" where
  "isWhiteSpace c \<longleftrightarrow> (of_char c :: nat) \<in> {9, 10, 11, 12, 13, 32, 160}"

definition trim :: "string \<Rightarrow> string" where
  "trim s = rev (dropWhile isWhiteSpace (rev (dropWhile isWhiteSpace s)))"

text \<open>
  The guard and the synchronous part of \<^verbatim>\<open>handleSendMessage\<close>, up to the call of
  \<^verbatim>\<open>session.sendMessageStream\<close>. \<open>None\<close> is the early \<^verbatim>\<open>return\<close>; otherwise
  the new state and the message handed to the chat service.
\<close>

definition sendStart :: "chat \<Rightarrow> (chat \<times> string) option" where
  "sendStart st =
     (if trim (userInput st) = [] \<or> session st = None \<or> isLoading st then None
      else
        let userMessage = \<lparr>role = User, content = trim (userInput st)\<rparr>;
            currentInput = trim (userInput st)
        in Some (st\<lparr>messages := messages st @ [userMessage, \<lparr>role = Model, content = []\<rparr>],
                     userInput := [], isLoading := True\<rparr>,
                 currentInput))"

text \<open>
  \<^verbatim>\<open>chunk.text\<close> is a string or \<^verbatim>\<open>undefined\<close>; \<^verbatim>\<open>+=\<close> on a string appends
  the text \<^verbatim>\<open>undefined\<close> in the second case.
\<close>

definition chunkText :: "string option \<Rightarrow> string" where
  "chunkText chunk = (case chunk of None \<Rightarrow> ''undefined'' | Some t \<Rightarrow> t)"

text \<open>
  The updater of the loop body. It copies the array and appends to the content of its
  last element when that is a model message. The element is an object that the old and
  the new array share and the append writes into it; the old array is not read again,
  and the updater is run once for each chunk. On an empty array the read of
  \<^verbatim>\<open>lastMessage.role\<close> throws inside the updater and nothing is stored; the transcript
  is never empty once the component has mounted.
\<close>

definition appendChunk :: "string option \<Rightarrow> chat_message list \<Rightarrow> chat_message list" where
  "appendChunk chunk prev =
     (if prev = [] then prev
      else
        let lastMessage = last prev
        in if role lastMessage = Model
           then butlast prev @ [lastMessage\<lparr>content := content lastMessage @ chunkText chunk\<rparr>]
           else prev)"

definition onChunk :: "string option \<Rightarrow> chat \<Rightarrow> chat" where
  "onChunk chunk st = st\<lparr>messages := appendChunk chunk (messages st)\<rparr>"

text \<open>The \<^verbatim>\<open>catch\<close> block and the \<^verbatim>\<open>finally\<close> block.\<close>

definition errorMessage :: chat_message where
  "errorMessage = \<lparr>role = Model, content = ''Sorry, I encountered an error. Please try again.''\<rparr>"

definition replaceOrPush :: "chat_message list \<Rightarrow> chat_message list" where
  "replaceOrPush prev =
     (if prev \<noteq> [] \<and> role (last prev) = Model \<and> content (last prev) = []
      then butlast prev @ [errorMessage]
      else prev @ [errorMessage])"

definition onError :: "chat \<Rightarrow> chat" where
  "onError st = st\<lparr>messages := replaceOrPush (messages st)\<rparr>"

definition onFinally :: "chat \<Rightarrow> chat" where
  "onFinally st = st\<lparr>isLoading := False\<rparr>"

text \<open>
  A stream is the chunks it delivers and the way it ends: it completes, or the
  iteration (or the call that opens it, when there are no chunks) throws.
  \<open>streamStates\<close> lists the component state after each chunk;
  \<open>handleSendMessage\<close> lists every state the component goes through, in order, and
  the requests sent to the chat service.
\<close>

datatype stream_end = Completes | Throws

fun streamStates :: "string option list \<Rightarrow> chat \<Rightarrow> chat list" where
  "streamStates [] st = []"
| "streamStates (chunk # chunks) st = onChunk chunk st # streamStates chunks (onChunk chunk st)"

definition handleSendMessage :: "chat \<Rightarrow> string option list \<times> stream_end \<Rightarrow> chat list \<times> string list" where
  "handleSendMessage st stream =
     (case sendStart st of
        None \<Rightarrow> ([], [])
      | Some (st0, currentInput) \<Rightarrow>
          let streamed = st0 # streamStates (fst stream) st0;
              caught = (case snd stream of
                          Completes \<Rightarrow> streamed
                        | Throws \<Rightarrow> streamed @ [onError (last streamed)])
          in (caught @ [onFinally (last caught)], [currentInput]))"

definition finalState :: "chat \<Rightarrow> string option list \<times> stream_end \<Rightarrow> chat" where
  "finalState st stream = last (st # fst (handleSendMessage st stream))"

text \<open>The state after the mount effect, with the greeting of the assistant.\<close>

definition mountedChat :: chat where
  "mountedChat =
     \<lparr>session = Some 0,
      messages = [\<lparr>role = Model, content = ''Hi! I'm Genie. Ask me anything about your document.''\<rparr>],
      userInput = [], isLoading = False\<rparr>"

section \<open>The audio panels\<close>

text \<open>
  Three components read text aloud: \<^verbatim>\<open>Summary\<close> (in StudyInterface.tsx),
  \<^verbatim>\<open>Flashcard\<close> and \<^verbatim>\<open>ConceptExplainer\<close>. Each of the three files declares its
  own module-level \<^verbatim>\<open>currentSource\<close> and its own copy of \<^verbatim>\<open>playAudio\<close> and
  \<^verbatim>\<open>stopAudio\<close>; the copies have the same text, so they are modelled once, with the
  file as a parameter. \<^verbatim>\<open>StudyInterface\<close> renders one tool at a time.
\<close>

datatype panel = SummaryPanel | FlashcardPanel | ExplainerPanel

text \<open>
  A source node is a number. The closure stored in \<^verbatim>\<open>source.onended\<close> refers to the
  \<^verbatim>\<open>currentSource\<close> of the file that created the source and to the \<^verbatim>\<open>onEnd\<close>
  callback of the component instance that asked for the playback; resolving the promise
  resumes the caller, which goes on with its \<^verbatim>\<open>finally\<close> block when the call of
  \<^verbatim>\<open>playAudio\<close> was awaited inside the \<^verbatim>\<open>try\<close>. A component instance is named by
  the value of the mount counter at its mount; a state setter of an instance that is no
  longer mounted does nothing.
\<close>

record handler =
  owner :: panel
  inTry :: bool
  mountedAt :: nat

record speech_request =
  requester :: panel
  requestText :: string
  requestedAt :: nat

record app =
  nextSource :: nat
  sounding :: "nat set"
  onended :: "nat \<Rightarrow> handler option"
  currentSource :: "panel \<Rightarrow> nat option"
  decodeCalls :: nat
  speechRequests :: "speech_request list"
  answered :: "nat set"
  activeTool :: "panel option"
  mountCount :: nat
  isGeneratingSpeech :: "panel \<Rightarrow> bool"
  isPlaying :: "panel \<Rightarrow> bool"
  audioDataRef :: "panel \<Rightarrow> string option"
  summary :: string
  explanation :: string
  flashcards :: "(string \<times> string) list"
  currentIndex :: nat
  isFlipped :: bool
  audioCache :: "string \<Rightarrow> string option"
  currentlyPlaying :: "string option"
  indexTimers :: "bool list"

text \<open>
  \<open>sounding\<close> holds the sources that have been started and have neither been stopped
  nor reached their end; \<open>onended\<close> holds the handlers that have not run yet;
  \<open>decodeCalls\<close> counts the calls of \<^verbatim>\<open>decode\<close>; \<open>speechRequests\<close> lists the calls
  of \<^verbatim>\<open>generateSpeech\<close> in order and \<open>answered\<close> the indices of those that have
  settled; \<open>indexTimers\<close> lists the pending \<^verbatim>\<open>setTimeout\<close> callbacks of the card
  navigation (\<open>True\<close> for the next card).
\<close>

definition initialApp :: "string \<Rightarrow> (string \<times> string) list \<Rightarrow> app" where
  "initialApp summaryText cards =
     \<lparr>nextSource = 0, sounding = {}, onended = (\<lambda>s. None), currentSource = (\<lambda>p. None),
      decodeCalls = 0, speechRequests = [], answered = {}, activeTool = None, mountCount = 0,
      isGeneratingSpeech = (\<lambda>p. False), isPlaying = (\<lambda>p. False),
      audioDataRef = (\<lambda>p. None), summary = summaryText, explanation = [],
      flashcards = cards, currentIndex = 0, isFlipped = False, audioCache = (\<lambda>t. None),
      currentlyPlaying = None, indexTimers = []\<rparr>"

subsection \<open>stopAudio and playAudio\<close>

text \<open>
  \<^verbatim>\<open>source.stop()\<close> silences the source at once; its \<^verbatim>\<open>ended\<close> event is
  dispatched later.
\<close>

definition stopSource :: "nat \<Rightarrow> app \<Rightarrow> app" where
  "stopSource s st = st\<lparr>sounding := sounding st - {s}\<rparr>"

definition stopAudio :: "panel \<Rightarrow> app \<Rightarrow> app" where
  "stopAudio p st =
     (case currentSource st p of
        None \<Rightarrow> st
      | Some s \<Rightarrow> (stopSource s st)\<lparr>currentSource := (currentSource st)(p := None)\<rparr>)"

text \<open>
  \<^verbatim>\<open>playAudio\<close> stops the current source of its file, decodes, and only then creates
  and starts a source, makes it the current one and installs the handler. The
  \<^verbatim>\<open>await\<close> inside it is on a promise that is already settled, so nothing else runs
  in between. The second component of the result is the exception that rejected the
  promise, if any.
\<close>

definition playAudio :: "panel \<Rightarrow> string \<Rightarrow> bool \<Rightarrow> nat \<Rightarrow> app \<Rightarrow> app \<times> decode_error option" where
  "playAudio p base64Audio awaitedInTry k st =
     (let st1 = (case currentSource st p of None \<Rightarrow> st | Some s \<Rightarrow> stopSource s st);
          st2 = st1\<lparr>decodeCalls := Suc (decodeCalls st1)\<rparr>
      in case decodePayload base64Audio of
           Inl e \<Rightarrow> (st2, Some e)
         | Inr audioBuffer \<Rightarrow>
             (let source = nextSource st2
              in (st2\<lparr>nextSource := Suc source,
                      sounding := insert source (sounding st2),
                      currentSource := (currentSource st2)(p := Some source),
                      onended := (onended st2)
                        (source := Some \<lparr>owner = p, inTry = awaitedInTry, mountedAt = k\<rparr>)\<rparr>,
                  None)))"

subsection \<open>State setters\<close>

definition alive :: "panel \<Rightarrow> nat \<Rightarrow> app \<Rightarrow> bool" where
  "alive p k st \<longleftrightarrow> activeTool st = Some p \<and> mountCount st = k"

definition setIsGeneratingSpeech :: "panel \<Rightarrow> nat \<Rightarrow> bool \<Rightarrow> app \<Rightarrow> app" where
  "setIsGeneratingSpeech p k v st =
     (if alive p k st then st\<lparr>isGeneratingSpeech := (isGeneratingSpeech st)(p := v)\<rparr> else st)"

definition setIsPlaying :: "panel \<Rightarrow> nat \<Rightarrow> bool \<Rightarrow> app \<Rightarrow> app" where
  "setIsPlaying p k v st =
     (if alive p k st then st\<lparr>isPlaying := (isPlaying st)(p := v)\<rparr> else st)"

definition setAudioDataRef :: "panel \<Rightarrow> nat \<Rightarrow> string option \<Rightarrow> app \<Rightarrow> app" where
  "setAudioDataRef p k v st =
     (if alive p k st then st\<lparr>audioDataRef := (audioDataRef st)(p := v)\<rparr> else st)"

definition setCurrentlyPlaying :: "nat \<Rightarrow> string option \<Rightarrow> app \<Rightarrow> app" where
  "setCurrentlyPlaying k v st =
     (if alive FlashcardPanel k st then st\<lparr>currentlyPlaying := v\<rparr> else st)"

definition setAudioCache :: "nat \<Rightarrow> string \<Rightarrow> string \<Rightarrow> app \<Rightarrow> app" where
  "setAudioCache k text audioData st =
     (if alive FlashcardPanel k st
      then st\<lparr>audioCache := (audioCache st)(text := Some audioData)\<rparr> else st)"

text \<open>
  What the three components do around a playback: the \<^verbatim>\<open>onEnd\<close> callback (also the
  body of the \<^verbatim>\<open>catch\<close> block), the setter called before \<^verbatim>\<open>playAudio\<close>, and the
  place where a synthesised payload is kept.
\<close>

definition markStopped :: "panel \<Rightarrow> nat \<Rightarrow> app \<Rightarrow> app" where
  "markStopped p k st =
     (case p of FlashcardPanel \<Rightarrow> setCurrentlyPlaying k None st | _ \<Rightarrow> setIsPlaying p k False st)"

definition markPlaying :: "panel \<Rightarrow> nat \<Rightarrow> string \<Rightarrow> app \<Rightarrow> app" where
  "markPlaying p k text st =
     (case p of
        FlashcardPanel \<Rightarrow> setCurrentlyPlaying k (Some text) st
      | _ \<Rightarrow> setIsPlaying p k True st)"

definition storeAudio :: "panel \<Rightarrow> nat \<Rightarrow> string \<Rightarrow> string \<Rightarrow> app \<Rightarrow> app" where
  "storeAudio p k text audioData st =
     (case p of
        FlashcardPanel \<Rightarrow> setAudioCache k text audioData st
      | _ \<Rightarrow> setAudioDataRef p k (Some audioData) st)"

subsection \<open>The ended event\<close>

definition ended :: "nat \<Rightarrow> app \<Rightarrow> app" where
  "ended s st =
     (case onended st s of
        None \<Rightarrow> st
      | Some h \<Rightarrow>
          (let st1 = st\<lparr>sounding := sounding st - {s}, onended := (onended st)(s := None)\<rparr>;
               st2 = (if currentSource st1 (owner h) = Some s
                      then st1\<lparr>currentSource := (currentSource st1)(owner h := None)\<rparr>
                      else st1);
               st3 = markStopped (owner h) (mountedAt h) st2
           in if inTry h then setIsGeneratingSpeech (owner h) (mountedAt h) False st3 else st3))"

subsection \<open>Requests to the synthesis service\<close>

text \<open>
  \<^verbatim>\<open>generateSpeech\<close> resolves with the audio data of the response and rejects when the
  call fails or the data is missing or empty.
\<close>

definition generateSpeech :: "string option \<Rightarrow> string option" where
  "generateSpeech response =
     (case response of None \<Rightarrow> None | Some d \<Rightarrow> if d = [] then None else Some d)"

definition requestSpeech :: "panel \<Rightarrow> string \<Rightarrow> nat \<Rightarrow> app \<Rightarrow> app" where
  "requestSpeech p text k st =
     (setIsGeneratingSpeech p k True st)
       \<lparr>speechRequests := speechRequests st @
          [\<lparr>requester = p, requestText = text, requestedAt = k\<rparr>]\<rparr>"

text \<open>
  The rest of the \<^verbatim>\<open>try\<close> block after \<^verbatim>\<open>await generateSpeech\<close>, the same in the
  three components up to the names of the setters: keep the payload, mark the text as
  playing, call \<^verbatim>\<open>playAudio\<close>. When that throws, the \<^verbatim>\<open>catch\<close> and
  \<^verbatim>\<open>finally\<close> blocks run at once; otherwise the handler stays suspended until the
  source ends.
\<close>

definition speechArrived :: "speech_request \<Rightarrow> string \<Rightarrow> app \<Rightarrow> app" where
  "speechArrived r audioData st =
     (let p = requester r; k = requestedAt r;
          st1 = storeAudio p k (requestText r) audioData st;
          st2 = markPlaying p k (requestText r) st1;
          played = playAudio p audioData True k st2
      in case snd played of
           None \<Rightarrow> fst played
         | Some e \<Rightarrow> setIsGeneratingSpeech p k False (markStopped p k (fst played)))"

definition speechFailed :: "speech_request \<Rightarrow> app \<Rightarrow> app" where
  "speechFailed r st =
     setIsGeneratingSpeech (requester r) (requestedAt r) False
       (markStopped (requester r) (requestedAt r) st)"

definition speechResponse :: "nat \<Rightarrow> string option \<Rightarrow> app \<Rightarrow> app" where
  "speechResponse i response st =
     (if i < length (speechRequests st) \<and> i \<notin> answered st
      then
        (let st1 = st\<lparr>answered := insert i (answered st)\<rparr>
         in case generateSpeech response of
              None \<Rightarrow> speechFailed (speechRequests st ! i) st1
            | Some audioData \<Rightarrow> speechArrived (speechRequests st ! i) audioData st1)
      else st)"

subsection \<open>The flashcard panel\<close>

text \<open>
  A test \<^verbatim>\<open>if (x)\<close> on a value that is a string, \<^verbatim>\<open>null\<close> or \<^verbatim>\<open>undefined\<close>
  succeeds when the value is a string that is not empty.
\<close>

definition truthy :: "string option \<Rightarrow> bool" where
  "truthy v = (case v of None \<Rightarrow> False | Some s \<Rightarrow> s \<noteq> [])"

text \<open>
  \<^verbatim>\<open>audioCache\<close> is a plain object, created by \<^verbatim>\<open>{}\<close> and by object spread. The
  read \<^verbatim>\<open>audioCache[text]\<close> finds an own property or else a member inherited from
  \<^verbatim>\<open>Object.prototype\<close>. The inherited members are functions (an object, for
  \<^verbatim>\<open>__proto__\<close>) and are listed with the string that \<^verbatim>\<open>atob\<close> makes of them.
\<close>

definition objectPrototype :: "(string \<times> string) list" where
  "objectPrototype =
     [(''constructor'', ''function Object() { [native code] }''),
      (''hasOwnProperty'', ''function hasOwnProperty() { [native code] }''),
      (''isPrototypeOf'', ''function isPrototypeOf() { [native code] }''),
      (''propertyIsEnumerable'', ''function propertyIsEnumerable() { [native code] }''),
      (''toLocaleString'', ''function toLocaleString() { [native code] }''),
      (''toString'', ''function toString() { [native code] }''),
      (''valueOf'', ''function valueOf() { [native code] }''),
      (''__defineGetter__'', ''function __defineGetter__() { [native code] }''),
      (''__defineSetter__'', ''function __defineSetter__() { [native code] }''),
      (''__lookupGetter__'', ''function __lookupGetter__() { [native code] }''),
      (''__lookupSetter__'', ''function __lookupSetter__() { [native code] }''),
      (''__proto__'', ''[object Object]'')]"

definition propertyRead :: "(string \<Rightarrow> string option) \<Rightarrow> string \<Rightarrow> string option" where
  "propertyRead obj key =
     (case obj key of Some v \<Rightarrow> Some v | None \<Rightarrow> map_of objectPrototype key)"

text \<open>
  \<^verbatim>\<open>handlePlayAudio\<close>, up to its first \<^verbatim>\<open>await\<close>. On a cache hit the call of
  \<^verbatim>\<open>playAudio\<close> is not inside a \<^verbatim>\<open>try\<close>: an exception leaves the state as it is.
\<close>

definition handlePlayAudio :: "string \<Rightarrow> app \<Rightarrow> app" where
  "handlePlayAudio text st =
     (let k = mountCount st;
          wasPlayingThisText = (currentlyPlaying st = Some text);
          st1 = (if truthy (currentlyPlaying st)
                 then setCurrentlyPlaying k None (stopAudio FlashcardPanel st)
                 else st)
      in if truthy (currentlyPlaying st) \<and> wasPlayingThisText then st1
         else
           (case propertyRead (audioCache st1) text of
              None \<Rightarrow> requestSpeech FlashcardPanel text k st1
            | Some cached \<Rightarrow>
                if cached = [] then requestSpeech FlashcardPanel text k st1
                else fst (playAudio FlashcardPanel cached False k
                            (setCurrentlyPlaying k (Some text) st1))))"

text \<open>
  The effect with the dependencies \<^verbatim>\<open>[currentIndex, isFlipped]\<close>, and the handlers
  that change them. \<^verbatim>\<open>setIsFlipped(false)\<close> on a card that is not flipped changes
  nothing and runs no effect; the index changes 150 ms after the click, in a timer.
\<close>

definition cardEffect :: "app \<Rightarrow> app" where
  "cardEffect st = setCurrentlyPlaying (mountCount st) None (stopAudio FlashcardPanel st)"

definition flipCard :: "app \<Rightarrow> app" where
  "flipCard st = cardEffect (st\<lparr>isFlipped := \<not> isFlipped st\<rparr>)"

definition unflip :: "app \<Rightarrow> app" where
  "unflip st = (if isFlipped st then cardEffect (st\<lparr>isFlipped := False\<rparr>) else st)"

definition goToNextCard :: "app \<Rightarrow> app" where
  "goToNextCard st = (unflip st)\<lparr>indexTimers := indexTimers st @ [True]\<rparr>"

definition goToPrevCard :: "app \<Rightarrow> app" where
  "goToPrevCard st = (unflip st)\<lparr>indexTimers := indexTimers st @ [False]\<rparr>"

definition indexTimer :: "app \<Rightarrow> app" where
  "indexTimer st =
     (case indexTimers st of
        [] \<Rightarrow> st
      | forward # rest \<Rightarrow>
          (let n = length (flashcards st); i = currentIndex st;
               j = (if forward then (i + 1) mod n else (i + n - 1) mod n);
               st1 = st\<lparr>indexTimers := rest\<rparr>
           in if j = i then st1 else cardEffect (st1\<lparr>currentIndex := j\<rparr>)))"

subsection \<open>The summary panel and the concept explainer\<close>

text \<open>
  \<^verbatim>\<open>handlePlay\<close> of \<^verbatim>\<open>Summary\<close> and of \<^verbatim>\<open>ConceptExplainer\<close>; the second one asks
  for speech only when there is an explanation. \<^verbatim>\<open>handleExplain\<close> resets the audio
  state before it asks for a new explanation.
\<close>

definition handlePlay :: "panel \<Rightarrow> app \<Rightarrow> app" where
  "handlePlay p st =
     (let k = mountCount st
      in if isPlaying st p then setIsPlaying p k False (stopAudio p st)
         else
           (case audioDataRef st p of
              Some cached \<Rightarrow>
                if cached \<noteq> []
                then fst (playAudio p cached False k (setIsPlaying p k True st))
                else if p = SummaryPanel then requestSpeech p (summary st) k st
                else if explanation st \<noteq> [] then requestSpeech p (explanation st) k st
                else st
            | None \<Rightarrow>
                if p = SummaryPanel then requestSpeech p (summary st) k st
                else if explanation st \<noteq> [] then requestSpeech p (explanation st) k st
                else st))"

definition handleExplain :: "string \<Rightarrow> app \<Rightarrow> app" where
  "handleExplain concept st =
     (if trim concept = [] then st
      else
        (let st1 = setIsPlaying ExplainerPanel (mountCount st) False (stopAudio ExplainerPanel st)
         in st1\<lparr>explanation := [],
                audioDataRef := (audioDataRef st1)(ExplainerPanel := None)\<rparr>))"

subsection \<open>Switching tools\<close>

text \<open>
  \<^verbatim>\<open>handleToolSelect\<close> on contents that are already generated: the tool that was
  rendered is unmounted and the selected one is mounted, with fresh state.
  \<^verbatim>\<open>Summary\<close> and \<^verbatim>\<open>ConceptExplainer\<close> stop the audio of their file in an effect
  cleanup; \<^verbatim>\<open>Flashcard\<close> has no cleanup. On mount, the effects of \<^verbatim>\<open>Summary\<close> and
  of \<^verbatim>\<open>Flashcard\<close> run once. The selection \<open>None\<close> stands for a tool without
  audio.
\<close>

definition unmount :: "app \<Rightarrow> app" where
  "unmount st =
     (case activeTool st of
        Some SummaryPanel \<Rightarrow> stopAudio SummaryPanel st
      | Some ExplainerPanel \<Rightarrow> stopAudio ExplainerPanel st
      | _ \<Rightarrow> st)"

definition mount :: "panel \<Rightarrow> app \<Rightarrow> app" where
  "mount p st =
     (case p of
        SummaryPanel \<Rightarrow>
          (stopAudio SummaryPanel st)
            \<lparr>isGeneratingSpeech := (isGeneratingSpeech st)(SummaryPanel := False),
             isPlaying := (isPlaying st)(SummaryPanel := False),
             audioDataRef := (audioDataRef st)(SummaryPanel := None)\<rparr>
      | FlashcardPanel \<Rightarrow>
          (stopAudio FlashcardPanel st)
            \<lparr>isGeneratingSpeech := (isGeneratingSpeech st)(FlashcardPanel := False),
             currentIndex := 0, isFlipped := False, audioCache := (\<lambda>t. None),
             currentlyPlaying := None\<rparr>
      | ExplainerPanel \<Rightarrow>
          st\<lparr>isGeneratingSpeech := (isGeneratingSpeech st)(ExplainerPanel := False),
             isPlaying := (isPlaying st)(ExplainerPanel := False),
             audioDataRef := (audioDataRef st)(ExplainerPanel := None),
             explanation := []\<rparr>)"

definition selectTool :: "panel option \<Rightarrow> app \<Rightarrow> app" where
  "selectTool tool st =
     (if tool = activeTool st then st
      else
        (let st1 = (unmount st)\<lparr>activeTool := tool, mountCount := Suc (mountCount st),
                                indexTimers := []\<rparr>
         in case tool of None \<Rightarrow> st1 | Some p \<Rightarrow> mount p st1))"

subsection \<open>Events\<close>

text \<open>
  What can happen to the application: a click (on a control that is rendered and not
  disabled), a timer, a settled request, an \<^verbatim>\<open>ended\<close> event. \<open>ClickRead True\<close> is the
  button of the front of the current card, which reads the term, \<open>ClickRead False\<close> the
  button of the back, which reads the definition.
\<close>

datatype event =
    SelectTool "panel option"
  | ClickRead bool
  | FlipCard
  | NextCard
  | PrevCard
  | IndexTimer
  | ClickPlay
  | ClickExplain string
  | Explained string
  | SpeechResponse nat "string option"
  | Ended nat

definition step :: "event \<Rightarrow> app \<Rightarrow> app" where
  "step e st =
     (case e of
        SelectTool tool \<Rightarrow> selectTool tool st
      | ClickRead front \<Rightarrow>
          if activeTool st = Some FlashcardPanel \<and> currentIndex st < length (flashcards st)
          then
            (let card = flashcards st ! currentIndex st;
                 text = (if front then fst card else snd card)
             in if isGeneratingSpeech st FlashcardPanel \<and> currentlyPlaying st \<noteq> Some text
                then st
                else handlePlayAudio text st)
          else st
      | FlipCard \<Rightarrow>
          if activeTool st = Some FlashcardPanel \<and> flashcards st \<noteq> [] then flipCard st else st
      | NextCard \<Rightarrow>
          if activeTool st = Some FlashcardPanel \<and> flashcards st \<noteq> [] then goToNextCard st
          else st
      | PrevCard \<Rightarrow>
          if activeTool st = Some FlashcardPanel \<and> flashcards st \<noteq> [] then goToPrevCard st
          else st
      | IndexTimer \<Rightarrow> if activeTool st = Some FlashcardPanel then indexTimer st else st
      | ClickPlay \<Rightarrow>
          if activeTool st = Some SummaryPanel \<and> summary st \<noteq> []
             \<and> \<not> isGeneratingSpeech st SummaryPanel
          then handlePlay SummaryPanel st
          else if activeTool st = Some ExplainerPanel \<and> explanation st \<noteq> []
             \<and> \<not> isGeneratingSpeech st ExplainerPanel
          then handlePlay ExplainerPanel st
          else st
      | ClickExplain concept \<Rightarrow>
          if activeTool st = Some ExplainerPanel then handleExplain concept st else st
      | Explained result \<Rightarrow>
          if activeTool st = Some ExplainerPanel then st\<lparr>explanation := result\<rparr> else st
      | SpeechResponse i response \<Rightarrow> speechResponse i response st
      | Ended s \<Rightarrow> ended s st)"

definition run :: "event list \<Rightarrow> app \<Rightarrow> app" where
  "run es st = foldl (\<lambda>s e. step e s) st es"

text \<open>
  The file whose \<^verbatim>\<open>playAudio\<close> started a source that has not ended yet, and the
  property of a state that the proofs carry along: every sounding source is the current
  source of the file that started it, and every source is older than the next one.
\<close>

definition startedBy :: "app \<Rightarrow> nat \<Rightarrow> panel option" where
  "startedBy st s = map_option owner (onended st s)"

definition wellFormed :: "app \<Rightarrow> bool" where
  "wellFormed st \<longleftrightarrow>
     (\<forall>s \<in> sounding st. s < nextSource st \<and> startedBy st s \<noteq> None
        \<and> (\<forall>p. startedBy st s = Some p \<longrightarrow> currentSource st p = Some s))
     \<and> (\<forall>p s. currentSource st p = Some s \<longrightarrow> s < nextSource st)"

text \<open>
  The dependencies of the effect of the flashcard panel, and what the effect leaves
  behind: no marker, no current source in the file of the flashcards, and no sounding
  source that this file has started.
\<close>

definition cardDeps :: "app \<Rightarrow> nat \<times> bool" where
  "cardDeps st = (currentIndex st, isFlipped st)"

definition flashcardSilent :: "app \<Rightarrow> bool" where
  "flashcardSilent st \<longleftrightarrow>
     currentlyPlaying st = None \<and> currentSource st FlashcardPanel = None
     \<and> (\<forall>s \<in> sounding st. startedBy st s \<noteq> Some FlashcardPanel)"

subsection \<open>Sessions and event sequences used as examples\<close>

text \<open>
  A session with one flashcard; the payload \<^verbatim>\<open>AAA=\<close> is the base64 of one sample
  of value 0. The sequences below name their sources by the order of creation.
\<close>

definition studySession :: app where
  "studySession = initialApp ''A summary.'' [(''Mitosis'', ''Cell division'')]"

text \<open>
  The application opens on the summary. The user goes to the flashcards and has the term
  of the card read aloud (source 0), then goes back to the summary and has it read aloud
  as well (source 1).
\<close>

definition crossPanelEvents :: "event list" where
  "crossPanelEvents =
     [SelectTool (Some SummaryPanel), SelectTool (Some FlashcardPanel),
      ClickRead True, SpeechResponse 0 (Some ''AAA=''),
      SelectTool (Some SummaryPanel), ClickPlay, SpeechResponse 1 (Some ''AAA='')]"

text \<open>The term of the card is read aloud for the first time (source 0).\<close>

definition firstReadEvents :: "event list" where
  "firstReadEvents =
     [SelectTool (Some FlashcardPanel), ClickRead True, SpeechResponse 0 (Some ''AAA='')]"

text \<open>
  The term is read aloud to its end (source 0); the card is flipped and the definition is
  read aloud to its end (source 1), so both texts are cached. The card is flipped back
  and the term is played from the cache (source 2, playback A). The card is flipped,
  which stops A, and the definition is played from the cache (source 3, playback B).
  The \<^verbatim>\<open>ended\<close> event of A has not been dispatched yet.
\<close>

definition switchTextEvents :: "event list" where
  "switchTextEvents =
     [SelectTool (Some FlashcardPanel),
      ClickRead True, SpeechResponse 0 (Some ''AAA=''), Ended 0,
      FlipCard, ClickRead False, SpeechResponse 1 (Some ''AAA=''), Ended 1,
      FlipCard, ClickRead True,
      FlipCard, ClickRead False]"

text \<open>
  A card whose term is the empty string, and a card whose term is \<^verbatim>\<open>constructor\<close>
  with three clicks on the button that reads the term.
\<close>

definition emptyTermSession :: app where
  "emptyTermSession = initialApp ''A summary.'' [([], ''Cell division'')]"

definition constructorSession :: app where
  "constructorSession = initialApp ''A summary.'' [(''constructor'', ''Builds an object'')]"

definition threeClicks :: "event list" where
  "threeClicks = [SelectTool (Some FlashcardPanel), ClickRead True, ClickRead True, ClickRead True]"

text \<open>
  The read-aloud of the term is asked for and, while the request is in flight, the card
  is flipped; the payload arrives afterwards. And: the read-aloud of the summary is asked
  for, the user goes to the flashcards, the payload arrives and is played by the file of
  the summary, and the card is flipped.
\<close>

definition lateResultEvents :: "event list" where
  "lateResultEvents =
     [SelectTool (Some FlashcardPanel), ClickRead True, FlipCard,
      SpeechResponse 0 (Some ''AAA='')]"

definition otherFileEvents :: "event list" where
  "otherFileEvents =
     [SelectTool (Some SummaryPanel), ClickPlay, SelectTool (Some FlashcardPanel),
      SpeechResponse 0 (Some ''AAA=''), FlipCard]"

section \<open>Properties of the audio decoder\<close>

subsection \<open>Base64: the decoder inverts the encoder\<close>

lemma sextet_join4:
  fixes n :: nat
  shows "((n div 262144 * 64 + n div 4096 mod 64) * 64 + n div 64 mod 64) * 64 + n mod 64 = n"
proof -
  have a: "n div 4096 = n div 64 div 64" and b: "n div 262144 = n div 64 div 64 div 64"
    by (simp_all add: div_mult2_eq [symmetric])
  have "n div 64 div 64 div 64 * 64 + n div 64 div 64 mod 64 = n div 64 div 64" by simp
  moreover have "n div 64 div 64 * 64 + n div 64 mod 64 = n div 64" by simp
  moreover have "n div 64 * 64 + n mod 64 = n" by simp
  ultimately show ?thesis unfolding a b by simp
qed

lemma sextet_join3:
  fixes n :: nat
  shows "(n div 4096 * 64 + n div 64 mod 64) * 64 + n mod 64 = n"
proof -
  have a: "n div 4096 = n div 64 div 64"
    by (simp_all add: div_mult2_eq [symmetric])
  have "n div 64 div 64 * 64 + n div 64 mod 64 = n div 64" by simp
  moreover have "n div 64 * 64 + n mod 64 = n" by simp
  ultimately show ?thesis unfolding a by simp
qed

lemma bytes3:
  fixes x y z :: nat
  assumes "x < 256" "y < 256" "z < 256"
  shows "((x * 256 + y) * 256 + z) div 65536 = x"
    and "((x * 256 + y) * 256 + z) div 256 mod 256 = y"
    and "((x * 256 + y) * 256 + z) mod 256 = z"
    and "((x * 256 + y) * 256 + z) div 262144 < 64"
proof -
  show "((x * 256 + y) * 256 + z) div 65536 = x" using assms by simp
  have "((x * 256 + y) * 256 + z) div 256 = x * 256 + y" using assms by simp
  then show "((x * 256 + y) * 256 + z) div 256 mod 256 = y" using assms by simp
  have "((x * 256 + y) * 256 + z) mod 256 = z mod 256" by (rule mod_mult_self3)
  then show "((x * 256 + y) * 256 + z) mod 256 = z" using assms by simp
  show "((x * 256 + y) * 256 + z) div 262144 < 64" using assms by (simp add: div_less_iff_less_mult)
qed

lemma bytes2:
  fixes x y :: nat
  assumes "x < 256" "y < 256"
  shows "(x * 256 + y) * 4 div 4 div 256 = x"
    and "(x * 256 + y) * 4 div 4 mod 256 = y"
    and "(x * 256 + y) * 4 div 4096 < 64"
  using assms by (simp_all add: div_less_iff_less_mult)

lemma bytes1:
  fixes x :: nat
  assumes "x < 256" 
  shows "x * 16 div 16 = x"
    and "x * 16 div 64 < 64"
  using assms by (simp_all add: div_less_iff_less_mult)

lemma of_char_base64Char:
  "i < 64 \<Longrightarrow> (of_char (base64Char i) :: nat) =
     (if i < 26 then 65 + i else if i < 52 then 71 + i else if i < 62 then i - 4
      else if i = 62 then 43 else 47)"
  by (simp add: base64Char_def)

lemma base64Index_base64Char: "i < 64 \<Longrightarrow> base64Index (base64Char i) = Some i"
  by (auto simp: base64Index_def of_char_base64Char Let_def)

lemma base64Char_not_ws: "i < 64 \<Longrightarrow> \<not> isAsciiWhitespace (base64Char i)"
  by (auto simp: isAsciiWhitespace_def of_char_base64Char)

lemma base64Char_not_eq: 
  assumes "i < 64" shows "base64Char i \<noteq> CHR ''=''"
proof
  assume "base64Char i = CHR ''=''"
  then have "(of_char (base64Char i) :: nat) = of_char CHR ''=''" by simp
  with assms show False by (simp add: of_char_base64Char split: if_splits)
qed

lemma btoa_split: "btoa s = map base64Char (sextets s) @ padding s"
  by (induction s rule: btoa.induct) (simp_all add: Let_def)

lemma sextets_bound: "i \<in> set (sextets s) \<Longrightarrow> i < 64"
proof (induction s rule: sextets.induct)
  case (1 a b c rest)
  have "((of_char a * 256 + of_char b) * 256 + (of_char c :: nat)) div 262144 < 64"
    by (rule bytes3) simp_all
  with 1 show ?case by (auto simp: Let_def)
next
  case (2 a b)
  have "((of_char a * 256 + (of_char b :: nat)) * 4) div 4096 < 64"
    by (rule bytes2) simp_all
  with 2 show ?case by (auto simp: Let_def)
next
  case (3 a)
  have "((of_char a :: nat) * 16) div 64 < 64"
    by (rule bytes1) simp
  with 3 show ?case by (auto simp: Let_def)
qed simp

lemma decodeSextets_quad:
  "decodeSextets (n div 262144 # n div 4096 mod 64 # n div 64 mod 64 # n mod 64 # rest) =
     char_of (n div 65536) # char_of (n div 256 mod 256) # char_of (n mod 256) # decodeSextets rest"
  by (simp only: decodeSextets.simps Let_def sextet_join4)

lemma decodeSextets_triple:
  "decodeSextets [n div 4096, n div 64 mod 64, n mod 64] =
     [char_of (n div 4 div 256), char_of (n div 4 mod 256)]"
  by (simp only: decodeSextets.simps Let_def sextet_join3)

lemma decodeSextets_pair:
  "decodeSextets [n div 64, n mod 64] = [char_of (n div 16)]"
proof -
  have "n div 64 * 64 + n mod 64 = n" by simp
  then show ?thesis by (simp only: decodeSextets.simps)
qed

lemma decodeSextets_sextets: "decodeSextets (sextets s) = s"
proof (induction s rule: sextets.induct)
  case (1 a b c rest)
  define n where "n = (of_char a * 256 + of_char b) * 256 + (of_char c :: nat)"
  have "n div 65536 = of_char a" "n div 256 mod 256 = of_char b" "n mod 256 = of_char c"
    unfolding n_def by (rule bytes3; simp)+
  then have c: "char_of (n div 65536) = a" "char_of (n div 256 mod 256) = b" "char_of (n mod 256) = c"
    by simp_all
  have "sextets (a # b # c # rest) =
      n div 262144 # n div 4096 mod 64 # n div 64 mod 64 # n mod 64 # sextets rest"
    by (simp only: sextets.simps Let_def n_def)
  then show ?case by (simp only: decodeSextets_quad c 1)
next
  case (2 a b)
  define n where "n = (of_char a * 256 + (of_char b :: nat)) * 4"
  have "n div 4 div 256 = of_char a" "n div 4 mod 256 = of_char b"
    unfolding n_def by (rule bytes2; simp)+
  then have c: "char_of (n div 4 div 256) = a" "char_of (n div 4 mod 256) = b"
    by simp_all
  have "sextets [a, b] = [n div 4096, n div 64 mod 64, n mod 64]"
    by (simp only: sextets.simps Let_def n_def)
  then show ?case by (simp only: decodeSextets_triple c)
next
  case (3 a)
  define n where "n = (of_char a :: nat) * 16"
  have "n div 16 = of_char a" unfolding n_def by simp
  then have c: "char_of (n div 16) = a" by simp
  have "sextets [a] = [n div 64, n mod 64]"
    by (simp only: sextets.simps Let_def n_def)
  then show ?case by (simp only: decodeSextets_pair c)
qed simp

lemma length_btoa_parts: "(length (sextets s) + length (padding s)) mod 4 = 0"
  by (induction s rule: sextets.induct) (simp_all add: Let_def)

lemma length_sextets_mod: "length (sextets s) mod 4 \<noteq> 1"
  by (induction s rule: sextets.induct) (simp_all add: Let_def)

lemma padding_cases: "padding s = [] \<or> (padding s = ''='' \<and> sextets s \<noteq> []) \<or> (padding s = ''=='' \<and> sextets s \<noteq> [])"
  by (induction s rule: sextets.induct) (auto simp: Let_def)

lemma those_base64: "(\<And>i. i \<in> set xs \<Longrightarrow> i < 64) \<Longrightarrow> those (map (base64Index \<circ> base64Char) xs) = Some xs"
  by (induction xs) (simp_all add: base64Index_base64Char)

lemma filter_ws_body: "(\<And>i. i \<in> set xs \<Longrightarrow> i < 64) \<Longrightarrow> filter (\<lambda>c. \<not> isAsciiWhitespace c) (map base64Char xs) = map base64Char xs"
  by (induction xs) (simp_all add: base64Char_not_ws)

lemma filter_ws_padding: "filter (\<lambda>c. \<not> isAsciiWhitespace c) (padding s) = padding s"
  by (induction s rule: padding.induct) (simp_all add: isAsciiWhitespace_def)

lemma stripPadding_body:
  assumes "\<And>i. i \<in> set xs \<Longrightarrow> i < 64"
    and "p = [] \<or> (p = ''='' \<and> xs \<noteq> []) \<or> (p = ''=='' \<and> xs \<noteq> [])"
  shows "stripPadding (map base64Char xs @ p) = map base64Char xs"
proof -
  have l: "xs \<noteq> [] \<Longrightarrow> last (map base64Char xs) \<noteq> CHR ''=''"
    using assms(1) by (simp add: last_map base64Char_not_eq)
  from assms(2) show ?thesis
  proof (elim disjE conjE)
    assume "p = []"
    with l show ?thesis by (cases "xs = []") (auto simp: stripPadding_def)
  next
    assume "p = ''=''" "xs \<noteq> []"
    with l show ?thesis by (simp add: stripPadding_def butlast_append)
  next
    assume "p = ''==''" "xs \<noteq> []"
    with l show ?thesis by (simp add: stripPadding_def butlast_append)
  qed
qed

lemma atob_btoa: "atob (btoa s) = Some s"
proof -
  let ?body = "map base64Char (sextets s)"
  have f: "filter (\<lambda>c. \<not> isAsciiWhitespace c) (btoa s) = ?body @ padding s"
    by (simp add: btoa_split filter_ws_body sextets_bound filter_ws_padding)
  have m: "length (?body @ padding s) mod 4 = 0"
    using length_btoa_parts [of s] by simp
  have s: "stripPadding (?body @ padding s) = ?body"
    by (rule stripPadding_body) (auto simp: sextets_bound padding_cases)
  have n: "length ?body mod 4 \<noteq> 1" using length_sextets_mod [of s] by simp
  show ?thesis
    unfolding atob_def Let_def f using m s n
    by (simp add: those_base64 sextets_bound decodeSextets_sextets)
qed

lemma le16: "word_cat (ucast (drop_bit 8 w) :: 8 word) (ucast w :: 8 word) = (w :: 16 word)"
  by (rule bit_word_eqI) (auto simp: bit_simps)

lemma of_char_char_of_unat: "(of_char (char_of (unat b)) :: 8 word) = b"
proof -
  have "(of_char (char_of (unat b)) :: nat) = unat b mod 256"
    by (rule of_char_of)
  moreover have "unat b < 256" using unsigned_less [of b, where ?'a = nat] by simp
  ultimately have e: "(of_char (char_of (unat b)) :: nat) = unat b" by simp
  have "(of_char (char_of (unat b)) :: 8 word) = of_nat (of_char (char_of (unat b)) :: nat)"
    by (simp only: of_nat_of_char)
  also have "\<dots> = of_nat (unat b)" by (simp only: e)
  also have "\<dots> = b" by simp
  finally show ?thesis .
qed

lemma int16Pairs_littleEndianBytes: "int16Pairs (littleEndianBytes samples) = samples"
  by (induction samples) (simp_all add: littleEndianBytes_def le16)

lemma length_littleEndianBytes: "length (littleEndianBytes samples) = 2 * length samples"
  by (induction samples) (simp_all add: littleEndianBytes_def)

lemma decode_encodeSamples: "decode (encodeSamples samples) = Inr (littleEndianBytes samples)"
  by (simp add: decode_def encodeSamples_def atob_btoa comp_def of_char_char_of_unat)

subsection \<open>The round trip\<close>

lemma int16Array_littleEndianBytes: "int16Array (littleEndianBytes samples) = Inr samples"
  by (simp add: int16Array_def length_littleEndianBytes int16Pairs_littleEndianBytes)

lemma single_channel: "map (\<lambda>i. f (xs ! i)) [0..<length xs] = map f xs"
proof -
  have "map (\<lambda>i. f (xs ! i)) [0..<length xs] = map f (map (\<lambda>i. xs ! i) [0..<length xs])"
    by (simp only: map_map comp_def)
  then show ?thesis by (simp only: map_nth)
qed

lemma normalize_range: "- 1 \<le> normalize w \<and> normalize w < 1"
proof -
  define i where "i = sint w"
  have "- (2 ^ (LENGTH(16) - 1)) \<le> sint w" "sint w < 2 ^ (LENGTH(16) - 1)"
    by (rule sint_ge, rule sint_lt)
  then have "- 32768 \<le> i" "i < 32768" by (simp_all add: i_def)
  then have "- 1 \<le> real_of_int i / 32768 \<and> real_of_int i / 32768 < 1" by simp
  moreover have "normalize w = real_of_int i / 32768" by (simp add: normalize_def i_def)
  ultimately show ?thesis by simp
qed

lemma decodePayload_encodeSamples:
  "samples \<noteq> [] \<Longrightarrow> decodePayload (encodeSamples samples) =
     Inr \<lparr>sampleRate = 24000, frames = length samples, channelData = [map normalize samples]\<rparr>"
  by (simp add: decodePayload_def decode_encodeSamples decodeAudioData_def
        int16Array_littleEndianBytes createBuffer_def single_channel)

text \<open>
  Claim C7 (decode round trip), for at least one sample. Encoding \<open>N \<ge> 1\<close> signed
  16-bit samples as little-endian bytes in base64 and decoding the payload gives a buffer
  at 24000 Hz with one channel of exactly \<open>N\<close> frames, the frame \<open>i\<close> being the
  sample \<open>i\<close> divided by 32768, a value from -1 up to but excluding 1.
\<close>

theorem decode_round_trip:
  assumes "samples \<noteq> []"
  shows "decodePayload (encodeSamples samples) =
           Inr \<lparr>sampleRate = 24000, frames = length samples,
                channelData = [map (\<lambda>w. real_of_int (sint w) / 32768) samples]\<rparr>
         \<and> (\<forall>w \<in> set samples. - 1 \<le> real_of_int (sint w) / 32768 \<and> real_of_int (sint w) / 32768 < 1)"
proof -
  have n: "normalize = (\<lambda>w. real_of_int (sint w) / 32768)"
    by (simp add: fun_eq_iff normalize_def)
  have "decodePayload (encodeSamples samples) =
           Inr \<lparr>sampleRate = 24000, frames = length samples, channelData = [map normalize samples]\<rparr>"
    using assms by (rule decodePayload_encodeSamples)
  moreover have "\<forall>w \<in> set samples. - 1 \<le> normalize w \<and> normalize w < 1"
    using normalize_range by blast
  ultimately show ?thesis unfolding n by simp
qed

text \<open>
  Counterexample to C7 as stated, at \<open>N = 0\<close>: the payload of no samples is the empty
  string; it decodes to no bytes, and \<^verbatim>\<open>createBuffer\<close> refuses a buffer of no frames.
\<close>

theorem decode_empty_fails: "decodePayload (encodeSamples []) = Inl NotSupportedError"
  by (simp add: decodePayload_def encodeSamples_def littleEndianBytes_def decode_def atob_def
      stripPadding_def decodeAudioData_def int16Array_def createBuffer_def)

text \<open>
  Witness for C7 with at least one sample: the samples 1, -1, the least and the greatest.
\<close>

theorem decode_round_trip_witness:"[1, - 1, - 32768, 32767 :: 16 word] \<noteq> []
   \<and> decodePayload (encodeSamples [1, - 1, - 32768, 32767]) =
       Inr \<lparr>sampleRate = 24000, frames = 4,
            channelData = [[1 / 32768, - 1 / 32768, - 1, 32767 / 32768]]\<rparr>"
proof -
  have h: "[1, - 1, - 32768, 32767 :: 16 word] \<noteq> []" by simp
  have v: "map (\<lambda>w. real_of_int (sint w) / 32768) [1, - 1, - 32768, 32767 :: 16 word] =
      [1 / 32768, - 1 / 32768, - 1, 32767 / 32768]"
    by simp
  have l: "length [1, - 1, - 32768, 32767 :: 16 word] = 4" by simp
  from decode_round_trip [OF h] have "decodePayload (encodeSamples [1, - 1, - 32768, 32767]) =
       Inr \<lparr>sampleRate = 24000, frames = length [1, - 1, - 32768, 32767 :: 16 word],
            channelData = [map (\<lambda>w. real_of_int (sint w) / 32768) [1, - 1, - 32768, 32767 :: 16 word]]\<rparr>"
    by (rule conjunct1)
  then show ?thesis unfolding v l using h by blast
qed

section \<open>Properties of the chat panel\<close>

lemma appendChunk_model:
  "appendChunk chunk (pre @ [\<lparr>role = Model, content = x\<rparr>]) =
     pre @ [\<lparr>role = Model, content = x @ chunkText chunk\<rparr>]"
  by (simp add: appendChunk_def)

lemma messages_onChunk:
  "messages st = pre @ [\<lparr>role = Model, content = x\<rparr>] \<Longrightarrow>
   messages (onChunk chunk st) = pre @ [\<lparr>role = Model, content = x @ chunkText chunk\<rparr>]"
  by (simp add: onChunk_def appendChunk_model)

lemma length_streamStates: "length (streamStates chunks st) = length chunks"
  by (induction chunks arbitrary: st) simp_all

lemma messages_streamStates_nth:
  "messages st = pre @ [\<lparr>role = Model, content = x\<rparr>] \<Longrightarrow> k < length chunks \<Longrightarrow>
   messages (streamStates chunks st ! k) =
     pre @ [\<lparr>role = Model, content = x @ concat (map chunkText (take (Suc k) chunks))\<rparr>]"
proof (induction chunks arbitrary: st x k)
  case Nil
  then show ?case by simp
next
  case (Cons c cs)
  have step: "messages (onChunk c st) = pre @ [\<lparr>role = Model, content = x @ chunkText c\<rparr>]"
    using Cons.prems(1) by (rule messages_onChunk)
  show ?case
  proof (cases k)
    case 0
    with step show ?thesis by simp
  next
    case (Suc j)
    with Cons.prems(2) have "j < length cs" by simp
    from Cons.IH [OF step this] Suc show ?thesis by simp
  qed
qed

lemma messages_streamed_nth:
  assumes "messages st = pre @ [\<lparr>role = Model, content = []\<rparr>]" and "k \<le> length chunks"
  shows "messages ((st # streamStates chunks st) ! k) =
     pre @ [\<lparr>role = Model, content = concat (map chunkText (take k chunks))\<rparr>]"
proof (cases k)
  case 0
  with assms show ?thesis by simp
next
  case (Suc j)
  with assms(2) have "j < length chunks" by simp
  from messages_streamStates_nth [OF assms(1) this] Suc show ?thesis by simp
qed

lemma messages_streamed_last_gen:
  "messages st = pre @ [\<lparr>role = Model, content = x\<rparr>] \<Longrightarrow>
   messages (last (st # streamStates chunks st)) =
     pre @ [\<lparr>role = Model, content = x @ concat (map chunkText chunks)\<rparr>]"
proof (induction chunks arbitrary: st x)
  case Nil
  then show ?case by simp
next
  case (Cons c cs)
  have "messages (onChunk c st) = pre @ [\<lparr>role = Model, content = x @ chunkText c\<rparr>]"
    using Cons.prems by (rule messages_onChunk)
  from Cons.IH [OF this] show ?case by simp
qed

lemma messages_streamed_last:
  assumes "messages st = pre @ [\<lparr>role = Model, content = []\<rparr>]"
  shows "messages (last (st # streamStates chunks st)) =
     pre @ [\<lparr>role = Model, content = concat (map chunkText chunks)\<rparr>]"
  using messages_streamed_last_gen [OF assms, of chunks] by simp

lemma sendStart_Some:
  assumes "trim (userInput st) \<noteq> []" "session st \<noteq> None" "\<not> isLoading st"
  shows "sendStart st =
     Some (st\<lparr>messages := messages st @ [\<lparr>role = User, content = trim (userInput st)\<rparr>,
                                          \<lparr>role = Model, content = []\<rparr>],
               userInput := [], isLoading := True\<rparr>, trim (userInput st))"
  using assms by (simp add: sendStart_def Let_def)

lemma chunkText_Some: "map chunkText (map Some fragments) = fragments"
  by (induction fragments) (simp_all add: chunkText_def)

lemma chunkText_comp_Some: "chunkText \<circ> Some = id"
  by (simp add: fun_eq_iff chunkText_def)

lemma replaceOrPush_model:
  "replaceOrPush (pre @ [\<lparr>role = Model, content = x\<rparr>]) =
     (if x = [] then pre @ [errorMessage] else pre @ [\<lparr>role = Model, content = x\<rparr>, errorMessage])"
  by (simp add: replaceOrPush_def)

text \<open>
  Claim C4 (stream ordering). A send that passes the guard goes through
  \<open>length fragments + 2\<close> states: after the push of the two entries, after each
  fragment, and after the \<^verbatim>\<open>finally\<close> block. In the state of index \<open>k\<close> the
  transcript is the old transcript, the user entry, and an assistant entry whose content
  is the concatenation of the first \<open>k\<close> fragments in arrival order; at the end it is the
  concatenation of all of them. No state shows fragments in another order.
\<close>

theorem stream_ordering:
  assumes "trim (userInput st) \<noteq> []" "session st \<noteq> None" "\<not> isLoading st"
  shows "length (fst (handleSendMessage st (map Some fragments, Completes))) = length fragments + 2
    \<and> (\<forall>k < length fragments + 2.
          messages (fst (handleSendMessage st (map Some fragments, Completes)) ! k) =
            messages st @ [\<lparr>role = User, content = trim (userInput st)\<rparr>,
                           \<lparr>role = Model, content = concat (take k fragments)\<rparr>])
    \<and> messages (finalState st (map Some fragments, Completes)) =
          messages st @ [\<lparr>role = User, content = trim (userInput st)\<rparr>,
                         \<lparr>role = Model, content = concat fragments\<rparr>]"
proof -
  define user where "user = \<lparr>role = User, content = trim (userInput st)\<rparr>"
  define st0 where "st0 = st\<lparr>messages := messages st @ [user, \<lparr>role = Model, content = []\<rparr>],
               userInput := [], isLoading := True\<rparr>"
  define streamed where "streamed = st0 # streamStates (map Some fragments) st0"
  have m0: "messages st0 = (messages st @ [user]) @ [\<lparr>role = Model, content = []\<rparr>]"
    by (simp add: st0_def)
  have run: "fst (handleSendMessage st (map Some fragments, Completes)) = streamed @ [onFinally (last streamed)]"
    using sendStart_Some [OF assms]
    by (simp add: handleSendMessage_def Let_def streamed_def st0_def user_def)
  have len: "length streamed = length fragments + 1"
    by (simp add: streamed_def length_streamStates)
  have nth: "messages (streamed ! k) = messages st @ [user, \<lparr>role = Model, content = concat (take k fragments)\<rparr>]"
    if "k \<le> length fragments" for k
    using messages_streamed_nth [OF m0, of k "map Some fragments"] that
    by (simp add: streamed_def take_map chunkText_comp_Some)
  have lst: "messages (last streamed) = messages st @ [user, \<lparr>role = Model, content = concat fragments\<rparr>]"
    using messages_streamed_last [OF m0, of "map Some fragments"]
    by (simp add: streamed_def chunkText_comp_Some)
  have fin: "messages (onFinally (last streamed)) = messages (last streamed)"
    by (simp add: onFinally_def)
  have all: "messages ((streamed @ [onFinally (last streamed)]) ! k) =
      messages st @ [user, \<lparr>role = Model, content = concat (take k fragments)\<rparr>]"
    if "k < length fragments + 2" for k
  proof (cases "k \<le> length fragments")
    case True
    then show ?thesis using nth [OF True] len by (simp add: nth_append)
  next
    case False
    with that have "k = length fragments + 1" by simp
    then show ?thesis using len lst fin by (simp add: nth_append)
  qed
  show ?thesis
    unfolding finalState_def run using len all lst fin by (simp add: user_def)
qed

text \<open>
  Claim C3 (failure policy), as the code has it. When the stream throws, the placeholder
  is replaced by the apology if its content is still empty; otherwise the partial content
  stays where it is and the apology is pushed as one more assistant entry after it. The
  component has no error flag: its state is \<open>session\<close>, \<open>messages\<close>, \<open>userInput\<close>
  and \<open>isLoading\<close>.
\<close>

theorem stream_failure_policy:
  assumes "trim (userInput st) \<noteq> []" "session st \<noteq> None" "\<not> isLoading st"
  shows "messages (finalState st (chunks, Throws)) =
     (if concat (map chunkText chunks) = []
      then messages st @ [\<lparr>role = User, content = trim (userInput st)\<rparr>, errorMessage]
      else messages st @ [\<lparr>role = User, content = trim (userInput st)\<rparr>,
                          \<lparr>role = Model, content = concat (map chunkText chunks)\<rparr>, errorMessage])"
proof -
  define user where "user = \<lparr>role = User, content = trim (userInput st)\<rparr>"
  define st0 where "st0 = st\<lparr>messages := messages st @ [user, \<lparr>role = Model, content = []\<rparr>],
               userInput := [], isLoading := True\<rparr>"
  define streamed where "streamed = st0 # streamStates chunks st0"
  have m0: "messages st0 = (messages st @ [user]) @ [\<lparr>role = Model, content = []\<rparr>]"
    by (simp add: st0_def)
  have run: "fst (handleSendMessage st (chunks, Throws)) =
      streamed @ [onError (last streamed), onFinally (onError (last streamed))]"
    using sendStart_Some [OF assms]
    by (simp add: handleSendMessage_def Let_def streamed_def st0_def user_def)
  have lst: "messages (last streamed) =
      (messages st @ [user]) @ [\<lparr>role = Model, content = concat (map chunkText chunks)\<rparr>]"
    using messages_streamed_last [OF m0, of chunks] by (simp add: streamed_def)
  have "messages (onFinally (onError (last streamed))) = replaceOrPush (messages (last streamed))"
    by (simp add: onFinally_def onError_def)
  also have "\<dots> = (if concat (map chunkText chunks) = [] then (messages st @ [user]) @ [errorMessage]
      else (messages st @ [user]) @ [\<lparr>role = Model, content = concat (map chunkText chunks)\<rparr>, errorMessage])"
    unfolding lst by (rule replaceOrPush_model)
  finally show ?thesis
    unfolding finalState_def run by (simp add: user_def)
qed

text \<open>
  Claim C9 (send preconditions). When the input is empty after trimming, or a send is
  already in progress, \<^verbatim>\<open>handleSendMessage\<close> returns at its guard: the component
  goes through no new state, so the transcript is unchanged, and no request is sent to the
  chat service.
\<close>

theorem send_preconditions:
  assumes "trim (userInput st) = [] \<or> isLoading st"
  shows "handleSendMessage st stream = ([], []) \<and> finalState st stream = st"
  using assms by (auto simp: handleSendMessage_def finalState_def sendStart_def)

text \<open>
  Witness for C4: the fragments \<^verbatim>\<open>Hel\<close>, \<^verbatim>\<open>lo \<close>, \<^verbatim>\<open>world\<close> after the
  question \<^verbatim>\<open>hi\<close> leave \<^verbatim>\<open>Hello world\<close> in the last entry.
\<close>

theorem stream_ordering_witness:
  "trim (userInput (mountedChat\<lparr>userInput := '' hi ''\<rparr>)) \<noteq> []
   \<and> session (mountedChat\<lparr>userInput := '' hi ''\<rparr>) \<noteq> None
   \<and> \<not> isLoading (mountedChat\<lparr>userInput := '' hi ''\<rparr>)
   \<and> content (last (messages (finalState (mountedChat\<lparr>userInput := '' hi ''\<rparr>)
        (map Some [''Hel'', ''lo '', ''world''], Completes)))) = ''Hello world''"
proof -
  let ?st = "mountedChat\<lparr>userInput := '' hi ''\<rparr>"
  have h: "trim (userInput ?st) \<noteq> []" "session ?st \<noteq> None" "\<not> isLoading ?st"
    by (simp_all add: mountedChat_def trim_def isWhiteSpace_def)
  from stream_ordering [OF h, of "[''Hel'', ''lo '', ''world'']"] h show ?thesis by simp
qed

text \<open>
  Witness for C9: an input of three spaces, and an input typed while a send is in
  progress.
\<close>

theorem send_preconditions_witness:
  "(trim (userInput (mountedChat\<lparr>userInput := ''   ''\<rparr>)) = []
      \<or> isLoading (mountedChat\<lparr>userInput := ''   ''\<rparr>))
   \<and> handleSendMessage (mountedChat\<lparr>userInput := ''   ''\<rparr>) ([Some ''x''], Completes) = ([], [])
   \<and> (trim (userInput (mountedChat\<lparr>userInput := ''hi'', isLoading := True\<rparr>)) = []
      \<or> isLoading (mountedChat\<lparr>userInput := ''hi'', isLoading := True\<rparr>))
   \<and> handleSendMessage (mountedChat\<lparr>userInput := ''hi'', isLoading := True\<rparr>) ([Some ''x''], Completes) = ([], [])"
proof -
  have a: "trim (userInput (mountedChat\<lparr>userInput := ''   ''\<rparr>)) = []
      \<or> isLoading (mountedChat\<lparr>userInput := ''   ''\<rparr>)"
    by (simp add: trim_def isWhiteSpace_def)
  have b: "trim (userInput (mountedChat\<lparr>userInput := ''hi'', isLoading := True\<rparr>)) = []
      \<or> isLoading (mountedChat\<lparr>userInput := ''hi'', isLoading := True\<rparr>)"
    by simp
  from send_preconditions [OF a] send_preconditions [OF b] a b show ?thesis by blast
qed

text \<open>
  Counterexample to C3 as stated: one fragment \<^verbatim>\<open>Hel\<close> has arrived when the stream
  throws. The transcript before the failure (the state of index 1) has three entries; the
  final transcript has four, the apology having been appended.
\<close>

theorem stream_failure_appends:
  "messages (fst (handleSendMessage (mountedChat\<lparr>userInput := ''hi''\<rparr>) ([Some ''Hel''], Throws)) ! 1) =
     messages mountedChat @ [\<lparr>role = User, content = ''hi''\<rparr>, \<lparr>role = Model, content = ''Hel''\<rparr>]
   \<and> messages (finalState (mountedChat\<lparr>userInput := ''hi''\<rparr>) ([Some ''Hel''], Throws)) =
     messages mountedChat @ [\<lparr>role = User, content = ''hi''\<rparr>, \<lparr>role = Model, content = ''Hel''\<rparr>,
       \<lparr>role = Model, content = ''Sorry, I encountered an error. Please try again.''\<rparr>]"
  by (simp add: finalState_def handleSendMessage_def sendStart_def trim_def isWhiteSpace_def
      mountedChat_def onChunk_def appendChunk_def chunkText_def onError_def replaceOrPush_def
      errorMessage_def onFinally_def Let_def)

text \<open>
  Witness for C3 as the code has it: the same send, and a send whose stream throws before any
  fragment.
\<close>

theorem stream_failure_policy_witness:
  "trim (userInput (mountedChat\<lparr>userInput := ''hi''\<rparr>)) \<noteq> []
   \<and> session (mountedChat\<lparr>userInput := ''hi''\<rparr>) \<noteq> None
   \<and> \<not> isLoading (mountedChat\<lparr>userInput := ''hi''\<rparr>)
   \<and> map content (messages (finalState (mountedChat\<lparr>userInput := ''hi''\<rparr>) ([Some ''Hel''], Throws))) =
       map content (messages mountedChat) @
         [''hi'', ''Hel'', ''Sorry, I encountered an error. Please try again.'']
   \<and> map content (messages (finalState (mountedChat\<lparr>userInput := ''hi''\<rparr>) ([], Throws))) =
       map content (messages mountedChat) @
         [''hi'', ''Sorry, I encountered an error. Please try again.'']"
proof -
  let ?st = "mountedChat\<lparr>userInput := ''hi''\<rparr>"
  have h: "trim (userInput ?st) \<noteq> []" "session ?st \<noteq> None" "\<not> isLoading ?st"
    by (simp_all add: mountedChat_def trim_def isWhiteSpace_def)
  have t: "trim ''hi'' = ''hi''"
    by (simp add: trim_def isWhiteSpace_def)
  from stream_failure_policy [OF h, of "[Some ''Hel'']"] stream_failure_policy [OF h, of "[]"] h
  show ?thesis by (simp add: t chunkText_def errorMessage_def)
qed

section \<open>Properties of the audio panels\<close>

subsection \<open>Every event keeps the state well-formed\<close>

lemma wf_setIsGeneratingSpeech [simp]: "wellFormed (setIsGeneratingSpeech p k v st) = wellFormed st"
  by (simp add: wellFormed_def startedBy_def setIsGeneratingSpeech_def)

lemma wf_setIsPlaying [simp]: "wellFormed (setIsPlaying p k v st) = wellFormed st"
  by (simp add: wellFormed_def startedBy_def setIsPlaying_def)

lemma wf_setAudioDataRef [simp]: "wellFormed (setAudioDataRef p k v st) = wellFormed st"
  by (simp add: wellFormed_def startedBy_def setAudioDataRef_def)

lemma wf_setCurrentlyPlaying [simp]: "wellFormed (setCurrentlyPlaying k v st) = wellFormed st"
  by (simp add: wellFormed_def startedBy_def setCurrentlyPlaying_def)

lemma wf_setAudioCache [simp]: "wellFormed (setAudioCache k t a st) = wellFormed st"
  by (simp add: wellFormed_def startedBy_def setAudioCache_def)

lemma wf_markStopped [simp]: "wellFormed (markStopped p k st) = wellFormed st"
  by (simp add: markStopped_def split: panel.splits)

lemma wf_markPlaying [simp]: "wellFormed (markPlaying p k t st) = wellFormed st"
  by (simp add: markPlaying_def split: panel.splits)

lemma wf_storeAudio [simp]: "wellFormed (storeAudio p k t a st) = wellFormed st"
  by (simp add: storeAudio_def split: panel.splits)

lemma wf_requestSpeech [simp]: "wellFormed (requestSpeech p t k st) = wellFormed st"
  by (simp add: requestSpeech_def wellFormed_def startedBy_def setIsGeneratingSpeech_def)

lemma wf_stopAudio: "wellFormed st \<Longrightarrow> wellFormed (stopAudio p st)"
  unfolding wellFormed_def startedBy_def stopAudio_def stopSource_def
  by (auto split: option.splits)

lemma wf_playAudio: "wellFormed st \<Longrightarrow> wellFormed (fst (playAudio p a t k st))"
  unfolding wellFormed_def startedBy_def playAudio_def stopSource_def Let_def
  by (auto split: option.splits sum.splits simp: less_Suc_eq)

lemma wf_ended: "wellFormed st \<Longrightarrow> wellFormed (ended s st)"
proof (cases "onended st s")
  case None
  then show "wellFormed st \<Longrightarrow> wellFormed (ended s st)" by (simp add: ended_def)
next
  case (Some h)
  assume wf: "wellFormed st"
  let ?st1 = "st\<lparr>sounding := sounding st - {s}, onended := (onended st)(s := None)\<rparr>"
  let ?st2 = "if currentSource ?st1 (owner h) = Some s
     then ?st1\<lparr>currentSource := (currentSource ?st1)(owner h := None)\<rparr> else ?st1"
  have "wellFormed ?st2"
    using wf Some unfolding wellFormed_def startedBy_def by auto
  then show "wellFormed (ended s st)"
    using Some by (simp add: ended_def Let_def)
qed

lemma wf_update_other [simp]:
  "wellFormed (st\<lparr>decodeCalls := a\<rparr>) = wellFormed st"
  "wellFormed (st\<lparr>speechRequests := b\<rparr>) = wellFormed st"
  "wellFormed (st\<lparr>answered := c\<rparr>) = wellFormed st"
  "wellFormed (st\<lparr>activeTool := d\<rparr>) = wellFormed st"
  "wellFormed (st\<lparr>mountCount := e\<rparr>) = wellFormed st"
  "wellFormed (st\<lparr>isGeneratingSpeech := f\<rparr>) = wellFormed st"
  "wellFormed (st\<lparr>isPlaying := g\<rparr>) = wellFormed st"
  "wellFormed (st\<lparr>audioDataRef := h\<rparr>) = wellFormed st"
  "wellFormed (st\<lparr>explanation := i\<rparr>) = wellFormed st"
  "wellFormed (st\<lparr>currentIndex := j\<rparr>) = wellFormed st"
  "wellFormed (st\<lparr>isFlipped := k\<rparr>) = wellFormed st"
  "wellFormed (st\<lparr>audioCache := l\<rparr>) = wellFormed st"
  "wellFormed (st\<lparr>currentlyPlaying := m\<rparr>) = wellFormed st"
  "wellFormed (st\<lparr>indexTimers := n\<rparr>) = wellFormed st"
  by (simp_all add: wellFormed_def startedBy_def)

lemma wf_initialApp: "wellFormed (initialApp summaryText cards)"
  by (simp add: wellFormed_def initialApp_def)

lemma wf_handlePlayAudio: "wellFormed st \<Longrightarrow> wellFormed (handlePlayAudio text st)"
  by (simp add: handlePlayAudio_def Let_def wf_stopAudio wf_playAudio split: option.splits)

lemma wf_cardEffect: "wellFormed st \<Longrightarrow> wellFormed (cardEffect st)"
  by (simp add: cardEffect_def wf_stopAudio)

lemma wf_flipCard: "wellFormed st \<Longrightarrow> wellFormed (flipCard st)"
  by (simp add: flipCard_def wf_cardEffect)

lemma wf_unflip: "wellFormed st \<Longrightarrow> wellFormed (unflip st)"
  by (simp add: unflip_def wf_cardEffect)

lemma wf_goToNextCard: "wellFormed st \<Longrightarrow> wellFormed (goToNextCard st)"
  by (simp add: goToNextCard_def wf_unflip)

lemma wf_goToPrevCard: "wellFormed st \<Longrightarrow> wellFormed (goToPrevCard st)"
  by (simp add: goToPrevCard_def wf_unflip)

lemma wf_indexTimer: "wellFormed st \<Longrightarrow> wellFormed (indexTimer st)"
  by (simp add: indexTimer_def Let_def wf_cardEffect split: list.splits)

lemma wf_handlePlay: "wellFormed st \<Longrightarrow> wellFormed (handlePlay p st)"
  by (simp add: handlePlay_def Let_def wf_stopAudio wf_playAudio split: option.splits)

lemma wf_handleExplain: "wellFormed st \<Longrightarrow> wellFormed (handleExplain concept st)"
  by (simp add: handleExplain_def Let_def wf_stopAudio)

lemma wf_unmount: "wellFormed st \<Longrightarrow> wellFormed (unmount st)"
  by (simp add: unmount_def wf_stopAudio split: option.splits panel.splits)

lemma wf_mount: "wellFormed st \<Longrightarrow> wellFormed (mount p st)"
  by (simp add: mount_def wf_stopAudio split: panel.splits)

lemma wf_selectTool: "wellFormed st \<Longrightarrow> wellFormed (selectTool tool st)"
  by (simp add: selectTool_def Let_def wf_unmount wf_mount split: option.splits)

lemma wf_speechArrived: "wellFormed st \<Longrightarrow> wellFormed (speechArrived r a st)"
  by (simp add: speechArrived_def Let_def wf_playAudio split: option.splits)

lemma wf_speechFailed: "wellFormed st \<Longrightarrow> wellFormed (speechFailed r st)"
  by (simp add: speechFailed_def)

lemma wf_speechResponse: "wellFormed st \<Longrightarrow> wellFormed (speechResponse i response st)"
  by (simp add: speechResponse_def Let_def wf_speechArrived wf_speechFailed split: option.splits)

lemma wf_step: "wellFormed st \<Longrightarrow> wellFormed (step e st)"
  by (cases e)
     (simp_all add: step_def Let_def wf_selectTool wf_handlePlayAudio wf_flipCard wf_goToNextCard
        wf_goToPrevCard wf_indexTimer wf_handlePlay wf_handleExplain wf_speechResponse wf_ended)

lemma wf_run: "wellFormed st \<Longrightarrow> wellFormed (run es st)"
  unfolding run_def by (induction es arbitrary: st) (simp_all add: wf_step)

lemma run_snoc: "run (es @ [e]) st = step e (run es st)"
  by (simp add: run_def)

lemma wf_reachable: "wellFormed (run es (initialApp summaryText cards))"
  by (rule wf_run) (rule wf_initialApp)

subsection \<open>The effect of the flashcard panel\<close>

lemma cardDeps_update_other [simp]:
  "cardDeps (st\<lparr>decodeCalls := a\<rparr>) = cardDeps st"
  "cardDeps (st\<lparr>speechRequests := b\<rparr>) = cardDeps st"
  "cardDeps (st\<lparr>answered := c\<rparr>) = cardDeps st"
  "cardDeps (st\<lparr>activeTool := d\<rparr>) = cardDeps st"
  "cardDeps (st\<lparr>mountCount := e\<rparr>) = cardDeps st"
  "cardDeps (st\<lparr>isGeneratingSpeech := f\<rparr>) = cardDeps st"
  "cardDeps (st\<lparr>isPlaying := g\<rparr>) = cardDeps st"
  "cardDeps (st\<lparr>audioDataRef := h\<rparr>) = cardDeps st"
  "cardDeps (st\<lparr>explanation := i\<rparr>) = cardDeps st"
  "cardDeps (st\<lparr>audioCache := l\<rparr>) = cardDeps st"
  "cardDeps (st\<lparr>currentlyPlaying := m\<rparr>) = cardDeps st"
  "cardDeps (st\<lparr>indexTimers := n\<rparr>) = cardDeps st"
  "cardDeps (st\<lparr>sounding := x\<rparr>) = cardDeps st"
  "cardDeps (st\<lparr>onended := y\<rparr>) = cardDeps st"
  "cardDeps (st\<lparr>currentSource := z\<rparr>) = cardDeps st"
  "cardDeps (st\<lparr>nextSource := w\<rparr>) = cardDeps st"
  by (simp_all add: cardDeps_def)

lemma cardDeps_setters [simp]:
  "cardDeps (setIsGeneratingSpeech p k v st) = cardDeps st"
  "cardDeps (setIsPlaying p k v st) = cardDeps st"
  "cardDeps (setAudioDataRef p k w st) = cardDeps st"
  "cardDeps (setCurrentlyPlaying k w st) = cardDeps st"
  "cardDeps (setAudioCache k t a st) = cardDeps st"
  by (simp_all add: cardDeps_def setIsGeneratingSpeech_def setIsPlaying_def setAudioDataRef_def
      setCurrentlyPlaying_def setAudioCache_def)

lemma cardDeps_marks [simp]:
  "cardDeps (markStopped p k st) = cardDeps st"
  "cardDeps (markPlaying p k t st) = cardDeps st"
  "cardDeps (storeAudio p k t a st) = cardDeps st"
  "cardDeps (requestSpeech p t k st) = cardDeps st"
  by (simp_all add: markStopped_def markPlaying_def storeAudio_def requestSpeech_def
      split: panel.splits)

lemma cardDeps_stopAudio [simp]: "cardDeps (stopAudio p st) = cardDeps st"
  by (simp add: cardDeps_def stopAudio_def stopSource_def split: option.splits)

lemma cardDeps_playAudio [simp]: "cardDeps (fst (playAudio p a t k st)) = cardDeps st"
  by (simp add: cardDeps_def playAudio_def stopSource_def Let_def split: option.splits sum.splits)

lemma cardDeps_ended [simp]: "cardDeps (ended s st) = cardDeps st"
proof (cases "onended st s")
  case None
  then show ?thesis by (simp add: ended_def)
next
  case (Some h)
  then show ?thesis by (simp add: ended_def Let_def)
qed

lemma cardDeps_speechResponse [simp]: "cardDeps (speechResponse i response st) = cardDeps st"
  by (simp add: speechResponse_def speechArrived_def speechFailed_def Let_def split: option.splits)

lemma cardDeps_handlePlayAudio [simp]: "cardDeps (handlePlayAudio text st) = cardDeps st"
  by (simp add: handlePlayAudio_def Let_def split: option.splits)

lemma cardDeps_handlePlay [simp]: "cardDeps (handlePlay p st) = cardDeps st"
  by (simp add: handlePlay_def Let_def split: option.splits)

lemma cardDeps_handleExplain [simp]: "cardDeps (handleExplain concept st) = cardDeps st"
  by (simp add: handleExplain_def Let_def)

lemma cardDeps_unmount [simp]: "cardDeps (unmount st) = cardDeps st"
  by (simp add: unmount_def split: option.splits panel.splits)

lemma silent_cardEffect:
  assumes "wellFormed st" "activeTool st = Some FlashcardPanel"
  shows "flashcardSilent (cardEffect st)"
  using assms
  unfolding flashcardSilent_def cardEffect_def setCurrentlyPlaying_def alive_def stopAudio_def
    stopSource_def wellFormed_def startedBy_def
  by (auto split: option.splits)

lemma silent_mount:
  assumes "wellFormed st"
  shows "flashcardSilent (mount FlashcardPanel st)"
  using assms
  unfolding flashcardSilent_def mount_def stopAudio_def stopSource_def wellFormed_def startedBy_def
  by (auto split: option.splits)

lemma silent_indexTimers [simp]: "flashcardSilent (st\<lparr>indexTimers := x\<rparr>) = flashcardSilent st"
  by (simp add: flashcardSilent_def startedBy_def)

lemma silent_unflip:
  assumes "wellFormed st" "activeTool st = Some FlashcardPanel" "cardDeps (unflip st) \<noteq> cardDeps st"
  shows "flashcardSilent (unflip st)"
  using assms by (auto simp: unflip_def intro!: silent_cardEffect split: if_splits)

lemma silent_indexTimer:
  assumes "wellFormed st" "activeTool st = Some FlashcardPanel" "cardDeps (indexTimer st) \<noteq> cardDeps st"
  shows "flashcardSilent (indexTimer st)"
  using assms
  by (auto simp: indexTimer_def Let_def intro!: silent_cardEffect split: list.splits if_splits)

lemma silent_selectTool:
  assumes "wellFormed st" "cardDeps (selectTool tool st) \<noteq> cardDeps st"
  shows "flashcardSilent (selectTool tool st)"
proof (cases "tool = activeTool st")
  case True
  with assms(2) show ?thesis by (simp add: selectTool_def)
next
  case False
  let ?st1 = "(unmount st)\<lparr>activeTool := tool, mountCount := Suc (mountCount st), indexTimers := []\<rparr>"
  have wf: "wellFormed ?st1" using assms(1) by (simp add: wf_unmount)
  have d: "cardDeps ?st1 = cardDeps st"
    using cardDeps_unmount [of st] by (simp add: cardDeps_def)
  show ?thesis
  proof (cases tool)
    case None
    with False assms(2) d show ?thesis by (simp add: selectTool_def Let_def)
  next
    case (Some p)
    show ?thesis
    proof (cases p)
      case FlashcardPanel
      with Some False silent_mount [OF wf] show ?thesis by (simp add: selectTool_def Let_def)
    next
      case SummaryPanel
      have "cardDeps (mount SummaryPanel ?st1) = cardDeps ?st1"
        using cardDeps_stopAudio [of SummaryPanel ?st1] by (simp add: mount_def cardDeps_def)
      with SummaryPanel Some False assms(2) d show ?thesis by (simp add: selectTool_def Let_def)
    next
      case ExplainerPanel
      have "cardDeps (mount ExplainerPanel ?st1) = cardDeps ?st1"
        by (simp add: mount_def cardDeps_def)
      with ExplainerPanel Some False assms(2) d show ?thesis by (simp add: selectTool_def Let_def)
    qed
  qed
qed

lemma silent_step:
  assumes "wellFormed st" "cardDeps (step e st) \<noteq> cardDeps st"
  shows "flashcardSilent (step e st)"
proof (cases e)
  case (SelectTool tool)
  with assms show ?thesis by (simp add: step_def silent_selectTool)
next
  case (ClickRead front)
  with assms(2) show ?thesis by (simp add: step_def Let_def split: if_splits)
next
  case FlipCard
  with assms show ?thesis
    by (auto simp: step_def flipCard_def intro!: silent_cardEffect split: if_splits)
next
  case NextCard
  with assms show ?thesis
    by (auto simp: step_def goToNextCard_def intro!: silent_unflip split: if_splits)
next
  case PrevCard
  with assms show ?thesis
    by (auto simp: step_def goToPrevCard_def intro!: silent_unflip split: if_splits)
next
  case IndexTimer
  with assms show ?thesis
    by (auto simp: step_def intro!: silent_indexTimer split: if_splits)
next
  case ClickPlay
  with assms(2) show ?thesis by (simp add: step_def split: if_splits)
next
  case (ClickExplain concept)
  with assms(2) show ?thesis by (simp add: step_def split: if_splits)
next
  case (Explained result)
  with assms(2) show ?thesis by (simp add: step_def cardDeps_def split: if_splits)
next
  case (SpeechResponse i response)
  with assms(2) show ?thesis by (simp add: step_def)
next
  case (Ended s)
  with assms(2) show ?thesis by (simp add: step_def)
qed

text \<open>
  Claim C10 (card change), as the code has it. In any state that the application can
  reach, an event that changes the index of the current card or the flip state runs the
  effect, and right after it the panel is silent: the marker is \<^verbatim>\<open>null\<close>, the file
  of the flashcards has no current source, and no source that this file has started is
  sounding. The narration that was playing at the change is cut. The effect cancels no
  request that is in flight and stops no source of another file.
\<close>

theorem card_change_silences:
  assumes "cardDeps (step e (run es (initialApp summaryText cards)))
             \<noteq> cardDeps (run es (initialApp summaryText cards))"
  shows "flashcardSilent (step e (run es (initialApp summaryText cards)))"
  using wf_reachable assms by (rule silent_step)

subsection \<open>Evaluating event sequences\<close>

lemma encode_zero: "encodeSamples [0] = ''AAA=''"
  by (simp add: encodeSamples_def littleEndianBytes_def base64Char_def Let_def char_of_eq_iff)

lemma payload_AAA:
  "decodePayload ''AAA='' = Inr \<lparr>sampleRate = 24000, frames = 1, channelData = [[0]]\<rparr>"
  using decodePayload_encodeSamples [of "[0]"] by (simp add: encode_zero normalize_def)

lemma payload_constructor:
  "decodePayload ''function Object() { [native code] }'' = Inl InvalidCharacterError"
  by (simp add: decodePayload_def decode_def atob_def isAsciiWhitespace_def stripPadding_def
      base64Index_def Let_def)

lemmas app_defs = run_def step_def selectTool_def unmount_def mount_def handlePlayAudio_def
  handlePlay_def handleExplain_def speechResponse_def speechArrived_def speechFailed_def
  generateSpeech_def requestSpeech_def ended_def markStopped_def markPlaying_def storeAudio_def
  setIsGeneratingSpeech_def setIsPlaying_def setAudioDataRef_def setCurrentlyPlaying_def
  setAudioCache_def alive_def playAudio_def stopAudio_def stopSource_def truthy_def
  propertyRead_def objectPrototype_def cardEffect_def flipCard_def unflip_def goToNextCard_def
  goToPrevCard_def indexTimer_def initialApp_def startedBy_def cardDeps_def Let_def

subsection \<open>One playback per file\<close>

lemma one_per_file:
  assumes "wellFormed st" "s \<in> sounding st" "s' \<in> sounding st" "startedBy st s = startedBy st s'"
  shows "s = s'"
proof -
  from assms(1,2) obtain p where p: "startedBy st s = Some p"
    unfolding wellFormed_def by blast
  with assms(1,2) have "currentSource st p = Some s" unfolding wellFormed_def by blast
  moreover from p assms(1,3,4) have "currentSource st p = Some s'" unfolding wellFormed_def by simp
  ultimately show ?thesis by simp
qed

lemma playAudio_stops_previous:
  assumes "wellFormed st" "currentSource st p = Some s"
  shows "s \<notin> sounding (fst (playAudio p base64Audio t k st))"
proof -
  from assms have "s < nextSource st" unfolding wellFormed_def by blast
  with assms(2) show ?thesis
    by (simp add: playAudio_def stopSource_def Let_def split: sum.splits)
qed

text \<open>
  Claim C1 (at most one playback), as the code has it: per file. After any sequence of
  events, two sounding sources that were started by the \<^verbatim>\<open>playAudio\<close> of the same
  file are the same source; and a call of \<^verbatim>\<open>playAudio\<close> leaves the source that was
  current in its file silent, whatever the payload. Nothing relates the sources of two
  different files.
\<close>

theorem one_source_per_file:
  "(\<forall>s \<in> sounding (run es (initialApp summaryText cards)).
      \<forall>s' \<in> sounding (run es (initialApp summaryText cards)).
        startedBy (run es (initialApp summaryText cards)) s
          = startedBy (run es (initialApp summaryText cards)) s' \<longrightarrow> s = s')
   \<and> (\<forall>p s. currentSource (run es (initialApp summaryText cards)) p = Some s \<longrightarrow>
         s \<notin> sounding (fst (playAudio p base64Audio t k (run es (initialApp summaryText cards)))))"
  using one_per_file [OF wf_reachable] playAudio_stops_previous [OF wf_reachable] by blast

text \<open>
  Witness for C1 per file: while the term of the card is being read aloud (source 0),
  one more call of \<^verbatim>\<open>playAudio\<close> in the file of the flashcards silences source 0.
\<close>

theorem one_source_per_file_witness:
  "sounding (run firstReadEvents studySession) = {0}
   \<and> currentSource (run firstReadEvents studySession) FlashcardPanel = Some 0
   \<and> 0 \<notin> sounding (fst (playAudio FlashcardPanel ''AAA='' False 1 (run firstReadEvents studySession)))"
proof -
  have a: "sounding (run firstReadEvents studySession) = {0}"
    and b: "currentSource (run firstReadEvents studySession) FlashcardPanel = Some 0"
    by (simp_all add: firstReadEvents_def studySession_def app_defs payload_AAA)
  from one_source_per_file [of firstReadEvents "''A summary.''" "[(''Mitosis'', ''Cell division'')]"
      "''AAA=''" False 1] b
  have "0 \<notin> sounding (fst (playAudio FlashcardPanel ''AAA='' False 1 (run firstReadEvents studySession)))"
    unfolding studySession_def by blast
  with a b show ?thesis by simp
qed

text \<open>
  Counterexample to C1 as stated: the flashcard panel has no cleanup on unmount, and the
  \<^verbatim>\<open>playAudio\<close> of StudyInterface.tsx looks at its own \<^verbatim>\<open>currentSource\<close> only.
  After the read-aloud of a card and then of the summary, two sources sound together.
\<close>

theorem two_files_sound_together:
  "sounding (run crossPanelEvents studySession) = {0, 1}
   \<and> startedBy (run crossPanelEvents studySession) 0 = Some FlashcardPanel
   \<and> startedBy (run crossPanelEvents studySession) 1 = Some SummaryPanel"
  by (simp add: crossPanelEvents_def studySession_def app_defs payload_AAA insert_commute)

subsection \<open>Completion of a stopped playback\<close>

lemma stale_completion_keeps_source:
  assumes "onended st s = Some h" "currentSource st (owner h) \<noteq> Some s"
  shows "currentSource (ended s st) = currentSource st"
  using assms
  by (simp add: ended_def Let_def markStopped_def setCurrentlyPlaying_def setIsPlaying_def
      setIsGeneratingSpeech_def split: panel.splits)

text \<open>
  Claim C2 (stale completion), what the code does. Playback A (source 2) has been
  stopped and playback B (source 3) is sounding, with the marker of the panel on the
  text of B. When the \<^verbatim>\<open>ended\<close> event of A is dispatched, the handler leaves
  \<^verbatim>\<open>currentSource\<close> alone, as its test requires, but calls \<^verbatim>\<open>onEnd\<close> without
  any test: the marker of the panel is reset while B goes on sounding.
\<close>

theorem stale_completion_clears_marker:
  "sounding (run switchTextEvents studySession) = {3}
   \<and> currentSource (run switchTextEvents studySession) FlashcardPanel = Some 3
   \<and> currentlyPlaying (run switchTextEvents studySession) = Some ''Cell division''
   \<and> 2 \<notin> sounding (run switchTextEvents studySession)
   \<and> startedBy (run switchTextEvents studySession) 2 = Some FlashcardPanel
   \<and> sounding (step (Ended 2) (run switchTextEvents studySession)) = {3}
   \<and> currentSource (step (Ended 2) (run switchTextEvents studySession)) FlashcardPanel = Some 3
   \<and> currentlyPlaying (step (Ended 2) (run switchTextEvents studySession)) = None"
  by (simp add: switchTextEvents_def studySession_def app_defs payload_AAA)

subsection \<open>Toggling\<close>

text \<open>
  On a text that is not empty, and in the two other panels, the second call stops: it
  runs \<^verbatim>\<open>stopAudio\<close> and resets the marker, and \<^verbatim>\<open>stopAudio\<close> neither decodes nor
  asks for speech.
\<close>

lemma toggle_stop_text:
  assumes "currentlyPlaying st = Some text" "text \<noteq> []"
  shows "handlePlayAudio text st = setCurrentlyPlaying (mountCount st) None (stopAudio FlashcardPanel st)"
  using assms by (simp add: handlePlayAudio_def truthy_def Let_def)

lemma toggle_stop_player:
  assumes "isPlaying st p"
  shows "handlePlay p st = setIsPlaying p (mountCount st) False (stopAudio p st)"
  using assms by (simp add: handlePlay_def Let_def)

lemma stopAudio_keeps:
  "decodeCalls (stopAudio p st) = decodeCalls st"
  "speechRequests (stopAudio p st) = speechRequests st"
  "nextSource (stopAudio p st) = nextSource st"
  "isGeneratingSpeech (stopAudio p st) = isGeneratingSpeech st"
  "activeTool (stopAudio p st) = activeTool st"
  "mountCount (stopAudio p st) = mountCount st"
  "currentSource (stopAudio p st) p = None"
  by (simp_all add: stopAudio_def stopSource_def split: option.splits)

lemma stopAudio_silent:
  assumes "wellFormed st" "s \<in> sounding (stopAudio p st)"
  shows "startedBy (stopAudio p st) s \<noteq> Some p"
  using assms
  unfolding wellFormed_def startedBy_def stopAudio_def stopSource_def
  by (auto split: option.splits)

text \<open>
  The toggle for a text that is not empty, and in the two other panels: the call resets
  the marker and the current source of the file, leaves no source of the file sounding,
  sends no request, decodes nothing and creates no source. It does not touch the flag
  \<open>isGeneratingSpeech\<close>: after a playback that followed a synthesis, that flag is reset
  when the \<^verbatim>\<open>ended\<close> event of the stopped source is handled.
\<close>

lemma toggle_stop:
  "(currentlyPlaying st = Some text \<and> text \<noteq> [] \<and> activeTool st = Some FlashcardPanel \<and> wellFormed st \<longrightarrow>
      currentlyPlaying (handlePlayAudio text st) = None
      \<and> currentSource (handlePlayAudio text st) FlashcardPanel = None
      \<and> (\<forall>s \<in> sounding (handlePlayAudio text st).
            startedBy (handlePlayAudio text st) s \<noteq> Some FlashcardPanel)
      \<and> speechRequests (handlePlayAudio text st) = speechRequests st
      \<and> decodeCalls (handlePlayAudio text st) = decodeCalls st
      \<and> nextSource (handlePlayAudio text st) = nextSource st
      \<and> isGeneratingSpeech (handlePlayAudio text st) = isGeneratingSpeech st)
   \<and> (isPlaying st p \<and> activeTool st = Some p \<and> wellFormed st \<longrightarrow>
      \<not> isPlaying (handlePlay p st) p
      \<and> currentSource (handlePlay p st) p = None
      \<and> (\<forall>s \<in> sounding (handlePlay p st). startedBy (handlePlay p st) s \<noteq> Some p)
      \<and> speechRequests (handlePlay p st) = speechRequests st
      \<and> decodeCalls (handlePlay p st) = decodeCalls st
      \<and> nextSource (handlePlay p st) = nextSource st
      \<and> isGeneratingSpeech (handlePlay p st) = isGeneratingSpeech st)"
proof (intro conjI impI)
  assume a: "currentlyPlaying st = Some text \<and> text \<noteq> [] \<and> activeTool st = Some FlashcardPanel \<and> wellFormed st"
  then have h: "handlePlayAudio text st =
      (stopAudio FlashcardPanel st)\<lparr>currentlyPlaying := None\<rparr>"
    by (simp add: toggle_stop_text setCurrentlyPlaying_def alive_def stopAudio_keeps)
  from a have wf: "wellFormed st" by simp
  show "currentlyPlaying (handlePlayAudio text st) = None"
    "currentSource (handlePlayAudio text st) FlashcardPanel = None"
    "speechRequests (handlePlayAudio text st) = speechRequests st"
    "decodeCalls (handlePlayAudio text st) = decodeCalls st"
    "nextSource (handlePlayAudio text st) = nextSource st"
    "isGeneratingSpeech (handlePlayAudio text st) = isGeneratingSpeech st"
    by (simp_all add: h stopAudio_keeps)
  show "\<forall>s \<in> sounding (handlePlayAudio text st).
      startedBy (handlePlayAudio text st) s \<noteq> Some FlashcardPanel"
    using stopAudio_silent [OF wf, of _ FlashcardPanel] by (simp add: h startedBy_def)
next
  assume a: "isPlaying st p \<and> activeTool st = Some p \<and> wellFormed st"
  then have h: "handlePlay p st = (stopAudio p st)\<lparr>isPlaying := (isPlaying st)(p := False)\<rparr>"
    by (simp add: toggle_stop_player setIsPlaying_def alive_def stopAudio_keeps)
       (simp add: stopAudio_def stopSource_def split: option.splits)
  from a have wf: "wellFormed st" by simp
  show "\<not> isPlaying (handlePlay p st) p"
    "currentSource (handlePlay p st) p = None"
    "speechRequests (handlePlay p st) = speechRequests st"
    "decodeCalls (handlePlay p st) = decodeCalls st"
    "nextSource (handlePlay p st) = nextSource st"
    "isGeneratingSpeech (handlePlay p st) = isGeneratingSpeech st"
    by (simp_all add: h stopAudio_keeps)
  show "\<forall>s \<in> sounding (handlePlay p st). startedBy (handlePlay p st) s \<noteq> Some p"
    using stopAudio_silent [OF wf, of _ p] by (simp add: h startedBy_def)
qed

lemma toggle_stop_example:
  "currentlyPlaying (run firstReadEvents studySession) = Some ''Mitosis''
   \<and> sounding (run firstReadEvents studySession) = {0}
   \<and> activeTool (run firstReadEvents studySession) = Some FlashcardPanel
   \<and> currentlyPlaying (handlePlayAudio ''Mitosis'' (run firstReadEvents studySession)) = None
   \<and> sounding (handlePlayAudio ''Mitosis'' (run firstReadEvents studySession)) = {}
   \<and> speechRequests (handlePlayAudio ''Mitosis'' (run firstReadEvents studySession))
       = speechRequests (run firstReadEvents studySession)
   \<and> decodeCalls (handlePlayAudio ''Mitosis'' (run firstReadEvents studySession)) = 1"
proof -
  let ?st = "run firstReadEvents studySession"
  have e: "currentlyPlaying ?st = Some ''Mitosis''" "sounding ?st = {0}"
    "activeTool ?st = Some FlashcardPanel" "decodeCalls ?st = 1"
    "sounding (handlePlayAudio ''Mitosis'' ?st) = {}"
    by (simp_all add: firstReadEvents_def studySession_def app_defs payload_AAA)
  have wf: "wellFormed ?st" unfolding studySession_def by (rule wf_reachable)
  from toggle_stop [of ?st "''Mitosis''" FlashcardPanel] e wf
  have "currentlyPlaying (handlePlayAudio ''Mitosis'' ?st) = None
      \<and> speechRequests (handlePlayAudio ''Mitosis'' ?st) = speechRequests ?st
      \<and> decodeCalls (handlePlayAudio ''Mitosis'' ?st) = decodeCalls ?st"
    by simp
  with e show ?thesis by simp
qed

text \<open>
  Claim C5 (toggle-stop), what the code does in two situations where the text is
  playing. First, the text is the empty string: the term of the card is playing
  (source 0) and is the marker of the panel; a second call of the read-aloud on it does
  not stop, because the test \<^verbatim>\<open>if (currentlyPlaying)\<close> fails on the empty string
  (the sibling \<^verbatim>\<open>renderAudioButton\<close> compares with \<^verbatim>\<open>===\<close> and shows the stop
  icon): the cache is hit and \<^verbatim>\<open>playAudio\<close> decodes again and starts source 1.
  Second, the definition of the card is playing (source 3) after the completion of a
  stopped playback has reset the marker (see C2): the call on the definition decodes
  again and starts source 4.
\<close>

theorem toggle_restarts:
  "currentlyPlaying (run firstReadEvents emptyTermSession) = Some []
   \<and> sounding (run firstReadEvents emptyTermSession) = {0}
   \<and> decodeCalls (run firstReadEvents emptyTermSession) = 1
   \<and> currentlyPlaying (step (ClickRead True) (run firstReadEvents emptyTermSession)) = Some []
   \<and> sounding (step (ClickRead True) (run firstReadEvents emptyTermSession)) = {1}
   \<and> decodeCalls (step (ClickRead True) (run firstReadEvents emptyTermSession)) = 2
   \<and> currentlyPlaying (run (switchTextEvents @ [Ended 2]) studySession) = None
   \<and> sounding (run (switchTextEvents @ [Ended 2]) studySession) = {3}
   \<and> decodeCalls (run (switchTextEvents @ [Ended 2]) studySession) = 4
   \<and> currentlyPlaying (step (ClickRead False) (run (switchTextEvents @ [Ended 2]) studySession))
       = Some ''Cell division''
   \<and> sounding (step (ClickRead False) (run (switchTextEvents @ [Ended 2]) studySession)) = {4}
   \<and> decodeCalls (step (ClickRead False) (run (switchTextEvents @ [Ended 2]) studySession)) = 5"
  by (simp add: firstReadEvents_def emptyTermSession_def switchTextEvents_def studySession_def
      app_defs payload_AAA)

subsection \<open>The cache\<close>

text \<open>
  For a text that is not the name of an inherited member: a call on a text that is not
  cached sends one request, the payload that arrives is stored under the text, and a
  later call on the cached text sends none.
\<close>

lemma cache_hit_no_request:
  assumes "audioCache st text = Some payload" "payload \<noteq> []" "currentlyPlaying st = None"
  shows "speechRequests (handlePlayAudio text st) = speechRequests st"
  using assms
  by (simp add: handlePlayAudio_def truthy_def propertyRead_def Let_def playAudio_def
      stopSource_def setCurrentlyPlaying_def split: option.splits sum.splits)

lemma cache_miss_one_request:
  assumes "audioCache st text = None" "map_of objectPrototype text = None" "currentlyPlaying st = None"
  shows "speechRequests (handlePlayAudio text st) =
     speechRequests st @ [\<lparr>requester = FlashcardPanel, requestText = text, requestedAt = mountCount st\<rparr>]"
  using assms
  by (simp add: handlePlayAudio_def truthy_def propertyRead_def Let_def requestSpeech_def)

lemma arrived_payload_cached:
  assumes "alive FlashcardPanel (requestedAt r) st" "requester r = FlashcardPanel"
  shows "audioCache (speechArrived r payload st) (requestText r) = Some payload"
  using assms
  by (simp add: speechArrived_def Let_def storeAudio_def markPlaying_def markStopped_def
      setAudioCache_def setCurrentlyPlaying_def setIsGeneratingSpeech_def playAudio_def
      stopSource_def alive_def split: option.splits sum.splits)

text \<open>
  Claim C6 (cache idempotence), what the code does when the text is \<^verbatim>\<open>constructor\<close>.
  The cache is empty, yet the read \<^verbatim>\<open>audioCache[text]\<close> finds the member inherited
  from \<^verbatim>\<open>Object.prototype\<close>: the first call takes the branch of the cache hit and
  \<^verbatim>\<open>playAudio\<close> throws on it; the second call toggles; the third does as the
  first. No request is ever sent to the synthesis service and nothing is ever played.
\<close>

theorem inherited_name_never_synthesised:
  "speechRequests (run threeClicks constructorSession) = []
   \<and> sounding (run threeClicks constructorSession) = {}
   \<and> nextSource (run threeClicks constructorSession) = 0
   \<and> decodeCalls (run threeClicks constructorSession) = 2
   \<and> audioCache (run threeClicks constructorSession) ''constructor'' = None"
  by (simp add: threeClicks_def constructorSession_def app_defs payload_constructor)

subsection \<open>Payloads that do not decode\<close>

lemma decodePayload_malformed:
  "atob payload = None \<Longrightarrow> decodePayload payload = Inl InvalidCharacterError"
  by (simp add: decodePayload_def decode_def)

lemma decodePayload_odd:
  "atob payload = Some bytes \<Longrightarrow> odd (length bytes) \<Longrightarrow> decodePayload payload = Inl RangeError"
  by (simp add: decodePayload_def decode_def decodeAudioData_def int16Array_def)

lemma playAudio_throws:
  assumes "decodePayload payload = Inl e"
  shows "snd (playAudio p payload t k st) = Some e
    \<and> nextSource (fst (playAudio p payload t k st)) = nextSource st
    \<and> sounding (fst (playAudio p payload t k st)) \<subseteq> sounding st
    \<and> onended (fst (playAudio p payload t k st)) = onended st"
  using assms by (auto simp: playAudio_def stopSource_def Let_def split: option.splits)

lemma audio_setters [simp]:
  "nextSource (setIsGeneratingSpeech p k v st) = nextSource st"
  "sounding (setIsGeneratingSpeech p k v st) = sounding st"
  "nextSource (markStopped p k st) = nextSource st"
  "sounding (markStopped p k st) = sounding st"
  "nextSource (markPlaying p k text st) = nextSource st"
  "sounding (markPlaying p k text st) = sounding st"
  "nextSource (storeAudio p k text a st) = nextSource st"
  "sounding (storeAudio p k text a st) = sounding st"
  by (simp_all add: setIsGeneratingSpeech_def markStopped_def markPlaying_def storeAudio_def
      setCurrentlyPlaying_def setIsPlaying_def setAudioCache_def setAudioDataRef_def
      split: panel.splits)

lemma speechArrived_throws:
  assumes "decodePayload payload = Inl e"
  shows "nextSource (speechArrived r payload st) = nextSource st
    \<and> sounding (speechArrived r payload st) \<subseteq> sounding st"
proof -
  let ?st2 = "markPlaying (requester r) (requestedAt r) (requestText r)
     (storeAudio (requester r) (requestedAt r) (requestText r) payload st)"
  let ?played = "playAudio (requester r) payload True (requestedAt r) ?st2"
  from playAudio_throws [OF assms, of "requester r" True "requestedAt r" ?st2]
  have t: "snd ?played = Some e" and n: "nextSource (fst ?played) = nextSource st"
    and s: "sounding (fst ?played) \<subseteq> sounding st"
    by simp_all
  have "speechArrived r payload st =
      setIsGeneratingSpeech (requester r) (requestedAt r) False
        (markStopped (requester r) (requestedAt r) (fst ?played))"
    using t by (simp add: speechArrived_def Let_def)
  with n s show ?thesis by simp
qed

text \<open>
  Claim C8 (decode failure). A payload that is not base64 for \<^verbatim>\<open>atob\<close> (once
  white space and padding are removed, its length is 1 modulo 4 or it has a code unit
  outside the alphabet, see \<open>atob_rejects_iff\<close> below), or whose decoded
  byte length is odd, makes the decoding step of \<^verbatim>\<open>playAudio\<close> throw
  (\<^verbatim>\<open>InvalidCharacterError\<close> in the first case, \<^verbatim>\<open>RangeError\<close> in the second)
  instead of producing a buffer. \<^verbatim>\<open>playAudio\<close> then rejects before it creates a
  source: no source is created, none starts to sound, no handler is installed. The same
  holds for the handler that receives such a payload from the synthesis service.
\<close>

theorem decode_failure_starts_nothing:
  assumes "atob payload = None \<or> (\<exists>bytes. atob payload = Some bytes \<and> odd (length bytes))"
  shows "decodePayload payload = Inl (if atob payload = None then InvalidCharacterError else RangeError)
    \<and> snd (playAudio p payload t k st) = Some (if atob payload = None then InvalidCharacterError else RangeError)
    \<and> nextSource (fst (playAudio p payload t k st)) = nextSource st
    \<and> sounding (fst (playAudio p payload t k st)) \<subseteq> sounding st
    \<and> onended (fst (playAudio p payload t k st)) = onended st
    \<and> nextSource (speechArrived r payload st) = nextSource st
    \<and> sounding (speechArrived r payload st) \<subseteq> sounding st"
proof -
  let ?e = "if atob payload = None then InvalidCharacterError else RangeError"
  from assms have d: "decodePayload payload = Inl ?e"
    by (auto simp: decodePayload_malformed decodePayload_odd)
  from d playAudio_throws [OF d] speechArrived_throws [OF d] show ?thesis by simp
qed

lemma those_map_None_iff: "those (map f xs) = None \<longleftrightarrow> (\<exists>x \<in> set xs. f x = None)"
  by (induction xs) (auto split: option.splits)

lemma atob_rejects_iff:
  "atob payload = None \<longleftrightarrow>
     (let stripped = filter (\<lambda>c. \<not> isAsciiWhitespace c) payload;
          data = (if length stripped mod 4 = 0 then stripPadding stripped else stripped)
      in length data mod 4 = 1 \<or> (\<exists>c \<in> set data. base64Index c = None))"
  by (simp add: atob_def Let_def those_map_None_iff)

lemma atob_AAAA: "atob ''AAAA'' = Some [CHR 0x00, CHR 0x00, CHR 0x00]"
  by (simp add: atob_def isAsciiWhitespace_def stripPadding_def base64Index_def Let_def
      char_of_eq_iff)

lemma atob_bang: "atob ''!!!!'' = None"
  by (simp add: atob_def isAsciiWhitespace_def stripPadding_def base64Index_def Let_def)

text \<open>
  Witness for C8: \<^verbatim>\<open>AAAA\<close> decodes to three bytes, \<^verbatim>\<open>!!!!\<close> is not base64; offered
  to \<^verbatim>\<open>playAudio\<close> while source 0 sounds, neither starts a source.
\<close>

theorem decode_failure_starts_nothing_witness:
  "atob ''AAAA'' = Some [CHR 0x00, CHR 0x00, CHR 0x00]
   \<and> snd (playAudio FlashcardPanel ''AAAA'' False 1 (run firstReadEvents studySession)) = Some RangeError
   \<and> nextSource (fst (playAudio FlashcardPanel ''AAAA'' False 1 (run firstReadEvents studySession))) = 1
   \<and> atob ''!!!!'' = None
   \<and> snd (playAudio FlashcardPanel ''!!!!'' False 1 (run firstReadEvents studySession)) = Some InvalidCharacterError
   \<and> nextSource (fst (playAudio FlashcardPanel ''!!!!'' False 1 (run firstReadEvents studySession))) = 1"
proof -
  have n: "nextSource (run firstReadEvents studySession) = 1"
    by (simp add: firstReadEvents_def studySession_def app_defs payload_AAA)
  have a: "atob ''AAAA'' = None \<or> (\<exists>bytes. atob ''AAAA'' = Some bytes \<and> odd (length bytes))"
    by (simp add: atob_AAAA)
  have b: "atob ''!!!!'' = None \<or> (\<exists>bytes. atob ''!!!!'' = Some bytes \<and> odd (length bytes))"
    by (simp add: atob_bang)
  from decode_failure_starts_nothing [OF a, of FlashcardPanel False 1 "run firstReadEvents studySession"]
    decode_failure_starts_nothing [OF b, of FlashcardPanel False 1 "run firstReadEvents studySession"]
  show ?thesis by (simp add: n atob_AAAA atob_bang)
qed

text \<open>
  Witness for C10: the term is being read aloud (source 0) when the card is flipped.
\<close>

theorem card_change_silences_witness:
  "sounding (run firstReadEvents studySession) = {0}
   \<and> currentlyPlaying (run firstReadEvents studySession) = Some ''Mitosis''
   \<and> isFlipped (step FlipCard (run firstReadEvents studySession))
   \<and> currentlyPlaying (step FlipCard (run firstReadEvents studySession)) = None
   \<and> currentSource (step FlipCard (run firstReadEvents studySession)) FlashcardPanel = None
   \<and> sounding (step FlipCard (run firstReadEvents studySession)) = {}"
proof -
  have a: "sounding (run firstReadEvents studySession) = {0}"
    "currentlyPlaying (run firstReadEvents studySession) = Some ''Mitosis''"
    "\<not> isFlipped (run firstReadEvents studySession)"
    "isFlipped (step FlipCard (run firstReadEvents studySession))"
    "sounding (step FlipCard (run firstReadEvents studySession)) = {}"
    by (simp_all add: firstReadEvents_def studySession_def app_defs payload_AAA)
  then have "cardDeps (step FlipCard (run firstReadEvents studySession))
      \<noteq> cardDeps (run firstReadEvents studySession)"
    by (simp add: cardDeps_def)
  then have "flashcardSilent (step FlipCard (run firstReadEvents studySession))"
    unfolding studySession_def by (rule card_change_silences)
  with a show ?thesis by (simp add: flashcardSilent_def)
qed

text \<open>
  Counterexample to C10 as stated. The read-aloud of the term is asked for and the card
  is flipped while the request is in flight: when the payload arrives, the handler marks
  the term as playing and plays it (source 0), with the back of the card displayed. And
  a source that the file of the summary has started (source 0, from a request that was
  in flight when the user left the summary) goes on sounding through a flip of the card.
\<close>

theorem narration_after_flip:
  "isFlipped (run lateResultEvents studySession)
   \<and> currentIndex (run lateResultEvents studySession) = 0
   \<and> sounding (run lateResultEvents studySession) = {0}
   \<and> startedBy (run lateResultEvents studySession) 0 = Some FlashcardPanel
   \<and> currentlyPlaying (run lateResultEvents studySession) = Some ''Mitosis''
   \<and> sounding (run (butlast otherFileEvents) studySession) = {0}
   \<and> \<not> isFlipped (run (butlast otherFileEvents) studySession)
   \<and> isFlipped (run otherFileEvents studySession)
   \<and> sounding (run otherFileEvents studySession) = {0}
   \<and> startedBy (run otherFileEvents studySession) 0 = Some SummaryPanel"
  by (simp add: lateResultEvents_def otherFileEvents_def studySession_def app_defs payload_AAA)

end
